theory Spec2Isabelle
  imports Complex_Main
begin

section \<open>JavaScript values and built-ins used by the client\<close>

text \<open>
  A JavaScript \<open>number\<close> is modelled as a real or \<open>NaN\<close> (the value \<open>parseInt\<close> gives
  for a text without digits). Rounding of IEEE doubles is outside the model. A \<open>string\<close>
  is a list of characters, each standing for one code unit below 256.
\<close>

datatype JSNumber = NaN | Number real

fun times :: "JSNumber \<Rightarrow> real \<Rightarrow> JSNumber" where
  "times NaN k = NaN"
| "times (Number x) k = Number (x * k)"

fun divide_by :: "JSNumber \<Rightarrow> real \<Rightarrow> JSNumber" where
  "divide_by NaN k = NaN"
| "divide_by (Number x) k = Number (x / k)"

text \<open>Template-literal rendering \<open>`${n}`\<close> of an integer-valued number of magnitude below
  \<open>10^21\<close>: decimal digits.\<close>

definition digitChar :: "nat \<Rightarrow> char" where
  "digitChar d = ''0123456789'' ! d"

fun digits :: "nat \<Rightarrow> string" where
  "digits n = (if n < 10 then [digitChar n] else digits (n div 10) @ [digitChar (n mod 10)])"

declare digits.simps [simp del]

definition toString :: "int \<Rightarrow> string" where
  "toString i = (if i < 0 then CHR ''-'' # digits (nat (- i)) else digits (nat i))"

text \<open>\<open>parseInt(s, 10)\<close>: skip leading white space, read an optional sign, then the longest
  run of decimal digits; \<open>None\<close> stands for \<open>NaN\<close> (no digit there).\<close>

definition isWhiteSpace :: "char \<Rightarrow> bool" where
  "isWhiteSpace c = (c \<in> set [CHR 0x09, CHR 0x0A, CHR 0x0B, CHR 0x0C, CHR 0x0D, CHR 0x20, CHR 0xA0])"

definition isDigit :: "char \<Rightarrow> bool" where
  "isDigit c = (48 \<le> (of_char c :: nat) \<and> (of_char c :: nat) \<le> 57)"

definition digitValue :: "char \<Rightarrow> nat" where
  "digitValue c = of_char c - 48"

definition parseDigits :: "string \<Rightarrow> nat" where
  "parseDigits ds = foldl (\<lambda>acc c. 10 * acc + digitValue c) 0 ds"

definition parseInt :: "string \<Rightarrow> int option" where
  "parseInt s =
     (let t = dropWhile isWhiteSpace s;
          negative = (t \<noteq> [] \<and> hd t = CHR ''-'');
          u = (if t \<noteq> [] \<and> (hd t = CHR ''-'' \<or> hd t = CHR ''+'') then tl t else t);
          ds = takeWhile isDigit u
      in if ds = [] then None
         else Some (if negative then - int (parseDigits ds) else int (parseDigits ds)))"

text \<open>\<open>encodeURIComponent\<close>: letters, digits and \<open>- _ . ! ~ * ' ( )\<close> are kept, every other
  character is written as the percent-escaped bytes of its UTF-8 encoding.\<close>

definition isUnreserved :: "char \<Rightarrow> bool" where
  "isUnreserved c =
     (let n = (of_char c :: nat)
      in (65 \<le> n \<and> n \<le> 90) \<or> (97 \<le> n \<and> n \<le> 122) \<or> (48 \<le> n \<and> n \<le> 57)
         \<or> c \<in> set [CHR ''-'', CHR ''_'', CHR ''.'', CHR ''!'', CHR ''~'', CHR ''*'', CHR 0x27,
                      CHR ''('', CHR '')''])"

definition hexDigit :: "nat \<Rightarrow> char" where
  "hexDigit d = ''0123456789ABCDEF'' ! d"

definition percent :: "nat \<Rightarrow> string" where
  "percent b = [CHR ''%'', hexDigit (b div 16), hexDigit (b mod 16)]"

definition encodeChar :: "char \<Rightarrow> string" where
  "encodeChar c =
     (let n = (of_char c :: nat)
      in if isUnreserved c then [c]
         else if n < 128 then percent n
         else percent (192 + n div 64) @ percent (128 + n mod 64))"

definition encodeURIComponent :: "string \<Rightarrow> string" where
  "encodeURIComponent s = concat (map encodeChar s)"

text \<open>\<open>Array.prototype.join\<close>.\<close>

fun join :: "string \<Rightarrow> string list \<Rightarrow> string" where
  "join sep [] = []"
| "join sep [x] = x"
| "join sep (x # y # ys) = x @ sep @ join sep (y # ys)"

subsection \<open>The regular expression of the 400 branch\<close>

text \<open>
  \<open>/<\/strong>: ([^<]+) <\/p>/g\<close>. \<open>matchHere\<close> is a match anchored at the head of the text:
  the literal \<open></strong>: \<close>, then the group \<open>[^<]+\<close>, greedy: the candidate lengths run
  from the whole run of non-\<open><\<close> characters down to one, and the first length after which
  the literal \<open> </p>\<close> follows is taken. The result is the group and the text after the match.
\<close>

definition matchHere :: "string \<Rightarrow> (string \<times> string) option" where
  "matchHere s =
     (if take 11 s = ''</strong>: '' then
        (let rest = drop 11 s;
             run = takeWhile (\<lambda>c. c \<noteq> CHR ''<'') rest
         in case find (\<lambda>m. take 5 (drop m rest) = '' </p>'') (rev [1..<Suc (length run)]) of
              None \<Rightarrow> None
            | Some m \<Rightarrow> Some (take m rest, drop (m + 5) rest))
      else None)"

text \<open>\<open>regex.exec\<close>: the leftmost match at or after \<open>lastIndex\<close>; the argument is the text
  from \<open>lastIndex\<close> on, the result carries the text from the new \<open>lastIndex\<close> on.\<close>

fun exec :: "string \<Rightarrow> (string \<times> string) option" where
  "exec [] = None"
| "exec (c # cs) = (case matchHere (c # cs) of Some r \<Rightarrow> Some r | None \<Rightarrow> exec cs)"

text \<open>\<open>matchAll\<close> of the source: call \<open>exec\<close> until it gives \<open>null\<close>, collecting group 1.\<close>

function matchAll :: "string \<Rightarrow> string list" where
  "matchAll s = (case exec s of None \<Rightarrow> [] | Some (g, r) \<Rightarrow> g # matchAll r)"
  by pat_completeness auto
termination
proof (relation "measure length")
  show "wf (measure length)" by simp
next
  fix s :: string and x2 g r
  assume found: "exec s = Some x2" and split: "(g, r) = x2"
  have here: "length r' < length t" if "matchHere t = Some (g', r')" for t g' r'
    using that
    by (auto simp: matchHere_def Let_def split: if_splits option.splits
        dest!: arg_cong[where f = length])
  have "length r' < length t" if "exec t = Some (g', r')" for t g' r'
    using that
  proof (induction t)
    case Nil
    then show ?case by simp
  next
    case (Cons c cs)
    then show ?case
      by (cases "matchHere (c # cs)") (auto dest: here)
  qed
  with found split show "(r, s) \<in> measure length"
    by auto
qed

declare matchAll.simps [simp del]

text \<open>\<open>err.replace(/&quot;/g, '"')\<close>: every occurrence, left to right.\<close>

fun replaceQuot :: "string \<Rightarrow> string" where
  "replaceQuot [] = []"
| "replaceQuot (c # cs) =
     (if take 6 (c # cs) = ''&quot;'' then CHR 0x22 # replaceQuot (drop 5 cs)
      else c # replaceQuot cs)"

section \<open>Errors\<close>

text \<open>
  What a subscriber can receive as an error: an \<open>OverpassError\<close> (an \<open>Error\<close> whose only
  content is its message), or what the transport rejected with, passed through unchanged:
  an Axios error (with the HTTP response, if one was received) or anything else.
\<close>

record AxiosResponse =
  status :: int
  statusText :: "string option"
  data :: string
  headers :: "(string \<times> string) list option"

datatype JSError =
    OverpassErrorObject string
  | AxiosError "AxiosResponse option"
  | OtherError

text \<open>The constructor \<open>new OverpassError(message, errors?, query?)\<close>; an omitted argument is
  \<open>None\<close>. An empty array and an empty string are falsy.\<close>

definition OverpassError :: "string \<Rightarrow> string list option \<Rightarrow> string option \<Rightarrow> JSError" where
  "OverpassError message errors query =
     (let detailedError =
            (case errors of
               Some es \<Rightarrow> if length es \<noteq> 0 then CHR 0x0A # ''Details: '' @ join ''; '' es else ''''
             | None \<Rightarrow> '''');
          queryMessage =
            (case query of
               Some q \<Rightarrow> if q \<noteq> '''' then q @ '' '' else ''''
             | None \<Rightarrow> '''')
      in OverpassErrorObject (''Overpass Error: '' @ queryMessage @ message @ detailedError))"

definition isAxiosError :: "JSError \<Rightarrow> bool" where
  "isAxiosError e = (case e of AxiosError _ \<Rightarrow> True | _ \<Rightarrow> False)"

section \<open>The cache store\<close>

text \<open>
  The client's \<open>lruCache\<close> is an instance of the \<open>lru-cache\<close> package. The model keeps the
  entries that \<open>get\<close> would return: an entry that the package has expired (older than its
  \<open>ttl\<close>, five minutes by default) or evicted (more than \<open>max\<close> entries, 500 by default) is
  absent from the map.
\<close>

type_synonym 'v LRUCache = "string \<rightharpoonup> 'v"

definition lruCache_get :: "'v LRUCache \<Rightarrow> string \<Rightarrow> 'v option" where
  "lruCache_get c k = c k"

definition lruCache_set :: "'v LRUCache \<Rightarrow> string \<Rightarrow> 'v \<Rightarrow> 'v LRUCache" where
  "lruCache_set c k v = c(k \<mapsto> v)"

definition lruCache_delete :: "'v LRUCache \<Rightarrow> string \<Rightarrow> 'v LRUCache" where
  "lruCache_delete c k = c(k := None)"

definition lruCache_clear :: "'v LRUCache \<Rightarrow> 'v LRUCache" where
  "lruCache_clear c = Map.empty"

section \<open>Observables\<close>

text \<open>
  Running an observable to its end gives the notification the subscriber receives (a value,
  after which the stream completes, or an error), the state afterwards and the effects
  performed on the way, in order; all of them happen before the notification is delivered.
\<close>

datatype 'v Notification = Next 'v | Error JSError

datatype Warning = RateLimitReached JSNumber | TransientError JSNumber

datatype 'v Effect =
    Post string
  | CacheSet string 'v
  | CacheDelete string
  | ConsoleWarn Warning
  | Timer JSNumber
  | Delay nat

text \<open>What the \<open>delay\<close> callback of \<open>retry\<close> returns: \<open>timer(ms)\<close> or \<open>throwError(...)\<close>.\<close>

datatype Notifier = TimerNotifier JSNumber | ThrowError JSError

text \<open>
  The \<open>retry({count, delay})\<close> operator of RxJS 7.8 (\<open>resetOnSuccess\<close> is off). The source is
  subscribed; a value is passed on. On an error, while \<open>soFar++ < count\<close>, the callback
  \<open>delay(err, soFar)\<close> is called with the incremented counter, so its second argument is 1
  at the first failure. If the notifier it returns errors, that error goes to the
  subscriber; when the notifier emits, the source is subscribed again. Past \<open>count\<close> the
  source's error is passed on as it is. \<open>src n\<close> is the \<open>n\<close>-th subscription to the source,
  counted from 0.
\<close>

function subscribeForRetry ::
  "int \<Rightarrow> (JSError \<Rightarrow> nat \<Rightarrow> 's \<Rightarrow> Notifier \<times> 's \<times> 'v Effect list) \<Rightarrow>
   (nat \<Rightarrow> 's \<Rightarrow> 'v Notification \<times> 's \<times> 'v Effect list) \<Rightarrow>
   nat \<Rightarrow> 's \<Rightarrow> 'v Notification \<times> 's \<times> 'v Effect list" where
  "subscribeForRetry count delay src soFar s =
     (case src soFar s of
        (Next v, s1, es1) \<Rightarrow> (Next v, s1, es1)
      | (Error err, s1, es1) \<Rightarrow>
          if int soFar < count then
            (case delay err (Suc soFar) s1 of
               (ThrowError e, s2, es2) \<Rightarrow> (Error e, s2, es1 @ es2)
             | (TimerNotifier ms, s2, es2) \<Rightarrow>
                 (case subscribeForRetry count delay src (Suc soFar) s2 of
                    (n, s3, es3) \<Rightarrow> (n, s3, es1 @ es2 @ Timer ms # es3)))
          else (Error err, s1, es1))"
  by pat_completeness auto
termination
  by (relation "measure (\<lambda>(count, delay, src, soFar, s). nat (count - int soFar))") auto

declare subscribeForRetry.simps [simp del]

text \<open>\<open>retry\<close> itself: \<open>count <= 0 ? identity : operate(...)\<close>.\<close>

definition retry ::
  "int \<Rightarrow> (JSError \<Rightarrow> nat \<Rightarrow> 's \<Rightarrow> Notifier \<times> 's \<times> 'v Effect list) \<Rightarrow>
   (nat \<Rightarrow> 's \<Rightarrow> 'v Notification \<times> 's \<times> 'v Effect list) \<Rightarrow>
   's \<Rightarrow> 'v Notification \<times> 's \<times> 'v Effect list" where
  "retry count delay src s =
     (if count \<le> 0 then src 0 s else subscribeForRetry count delay src 0 s)"

section \<open>The client\<close>

datatype ElementType = node | way | relation


datatype Format = json | xml

fun formatText :: "Format \<Rightarrow> string" where
  "formatText json = ''json''"
| "formatText xml = ''xml''"

text \<open>The fields of \<open>class OverpassClient\<close>; \<open>axiosInstance\<close> is the transport, given to
  each operation as the outcome of its \<open>n\<close>-th \<open>post\<close> (counted from 0 within the request).\<close>

record 'v OverpassClient =
  endpoint :: string
  format :: Format
  lruCache :: "'v LRUCache"
  maxRetries :: int
  timeout :: int

datatype 'v Outcome = Resolved 'v | Rejected JSError

text \<open>\<open>retryAfter(attempt, retryAfterMs = null)\<close>. \<open>random\<close> is the value \<open>Math.random()\<close>
  returns in this call.\<close>

definition retryAfter :: "real \<Rightarrow> nat \<Rightarrow> JSNumber option \<Rightarrow> Notifier \<times> 'v Effect list" where
  "retryAfter random attempt retryAfterMs =
     (case retryAfterMs of
        Some ms \<Rightarrow> (TimerNotifier ms, [ConsoleWarn (RateLimitReached (divide_by ms 1000))])
      | None \<Rightarrow>
          (let baseDelay = 2 ^ attempt * 1000;
               retryAfter = random * baseDelay
           in (TimerNotifier (Number retryAfter),
               [ConsoleWarn (TransientError (Number (retryAfter / 1000)))])))"

text \<open>\<open>response.headers?.[name]\<close>: \<open>None\<close> when there are no headers or no such header.\<close>

definition header :: "AxiosResponse \<Rightarrow> string \<Rightarrow> string option" where
  "header response name = (case headers response of None \<Rightarrow> None | Some hs \<Rightarrow> map_of hs name)"

text \<open>The header read of the 429 branch:
  \<open>response.headers?.['retry-after'] ? parseInt(response.headers['retry-after'], 10) * 1000 : null\<close>.
  A missing header and an empty one are falsy.\<close>

definition retryAfterHeader :: "AxiosResponse \<Rightarrow> JSNumber option" where
  "retryAfterHeader response =
     (case header response ''retry-after'' of
        None \<Rightarrow> None
      | Some h \<Rightarrow>
          if h \<noteq> '''' then
            Some (times (case parseInt h of None \<Rightarrow> NaN | Some n \<Rightarrow> Number (of_int n)) 1000)
          else None)"

text \<open>The \<open>delay\<close> callback that \<open>query\<close> gives to \<open>retry\<close>. \<open>random attempt\<close> is the value of
  \<open>Math.random()\<close> when the callback runs for that attempt.\<close>

definition retryDelay ::
  "(nat \<Rightarrow> real) \<Rightarrow> string \<Rightarrow> string \<Rightarrow> JSError \<Rightarrow> nat \<Rightarrow> 'v OverpassClient \<Rightarrow>
   Notifier \<times> 'v OverpassClient \<times> 'v Effect list" where
  "retryDelay random query cachedKey error attempt this =
     (case error of
        AxiosError response \<Rightarrow>
          (let this1 = this\<lparr>lruCache := lruCache_delete (lruCache this) cachedKey\<rparr>;
               deleted = [CacheDelete cachedKey]
           in if int attempt \<ge> maxRetries this then
                (ThrowError
                   (OverpassError
                      (''Max retries exceeded. Request failed '' @
                       (case response of
                          None \<Rightarrow> ''''
                        | Some r \<Rightarrow> (case statusText r of None \<Rightarrow> '''' | Some t \<Rightarrow> t)))
                      None (Some query)),
                 this1, deleted)
              else
                (case response of
                   Some r \<Rightarrow>
                     if status r = 400 then
                       (let errors = map replaceQuot (matchAll (data r))
                        in (ThrowError (OverpassError ''Bad Request Error'' (Some errors) (Some query)),
                            this1, deleted))
                     else if status r = 429 then
                       (case retryAfter (random attempt) attempt (retryAfterHeader r) of
                          (n, es) \<Rightarrow> (n, this1, deleted @ es))
                     else if status r = 500 \<or> status r = 502 \<or> status r = 503 \<or> status r = 504 then
                       (case retryAfter (random attempt) attempt None of
                          (n, es) \<Rightarrow> (n, this1, deleted @ es))
                     else
                       (let statusPrefix =
                              (if status r \<noteq> 0 then ''['' @ toString (status r) @ ''] - '' else '''')
                        in (ThrowError
                              (OverpassError
                                 (statusPrefix @
                                  (case statusText r of
                                     None \<Rightarrow> ''Unknown error occured''
                                   | Some t \<Rightarrow> t))
                                 None None),
                            this1, deleted))
                 | None \<Rightarrow>
                     (ThrowError (OverpassError ''Something went wrong'' None (Some query)),
                      this1, deleted)))
      | _ \<Rightarrow> (ThrowError (OverpassError ''Unknown error occurred'' None (Some query)), this, []))"

text \<open>The query text that goes out, and the form body that carries it.\<close>

definition fullQuery :: "'v OverpassClient \<Rightarrow> string \<Rightarrow> string" where
  "fullQuery this query =
     (let timeoutEnabled =
            (if timeout this \<noteq> 0 then ''[timeout:'' @ toString (timeout this) @ '']'' else '''')
      in ''[out:'' @ formatText (format this) @ '']'' @ timeoutEnabled @ '';'' @ query)"

definition requestBody :: "'v OverpassClient \<Rightarrow> string \<Rightarrow> string" where
  "requestBody this query = ''data='' @ encodeURIComponent (fullQuery this query)"

text \<open>The source observable of \<open>query\<close>: \<open>defer(() => post(...).then(r => r.data))\<close> followed by
  \<open>tap(data => lruCache.set(cachedKey, data))\<close>.\<close>

definition postAndTap ::
  "(nat \<Rightarrow> 'v Outcome) \<Rightarrow> string \<Rightarrow> string \<Rightarrow> nat \<Rightarrow> 'v OverpassClient \<Rightarrow>
   'v Notification \<times> 'v OverpassClient \<times> 'v Effect list" where
  "postAndTap transport body cachedKey n this =
     (case transport n of
        Resolved d \<Rightarrow>
          (Next d, this\<lparr>lruCache := lruCache_set (lruCache this) cachedKey d\<rparr>,
           [Post body, CacheSet cachedKey d])
      | Rejected e \<Rightarrow> (Error e, this, [Post body]))"

definition query ::
  "'v OverpassClient \<Rightarrow> (nat \<Rightarrow> 'v Outcome) \<Rightarrow> (nat \<Rightarrow> real) \<Rightarrow> string \<Rightarrow> string \<Rightarrow>
   'v Notification \<times> 'v OverpassClient \<times> 'v Effect list" where
  "query this transport random q cachedKey =
     retry (maxRetries this) (retryDelay random q cachedKey)
       (postAndTap transport (requestBody this q) cachedKey) this"






definition clearCache :: "'v OverpassClient \<Rightarrow> 'v OverpassClient" where
  "clearCache this = this\<lparr>lruCache := lruCache_clear (lruCache this)\<rparr>"

section \<open>Reading a run\<close>

text \<open>The number of transport invocations in a list of effects, and the waits scheduled
  in it, in order.\<close>

fun postCount :: "'v Effect list \<Rightarrow> nat" where
  "postCount [] = 0"
| "postCount (Post b # es) = Suc (postCount es)"
| "postCount (e # es) = postCount es"

fun timers :: "'v Effect list \<Rightarrow> JSNumber list" where
  "timers [] = []"
| "timers (Timer ms # es) = ms # timers es"
| "timers (e # es) = timers es"

text \<open>The effects of one attempt go before those of the rest of the run.\<close>

fun prepend :: "'v Effect list \<Rightarrow> 'n \<times> 's \<times> 'v Effect list \<Rightarrow> 'n \<times> 's \<times> 'v Effect list" where
  "prepend es (n, s, es') = (n, s, es @ es')"

subsection \<open>The fixtures of the test suite\<close>

text \<open>\<open>new OverpassClient('http://test-overpass-api', 'json', 60, 2)\<close>, a mocked response with
  a status only, \<open>replyOnce(code)\<close> followed by \<open>reply(200, mockData)\<close>, \<open>reply(code)\<close> for a
  failing status, and \<open>reply(200, mockData)\<close>.
  A payload is a number here: \<open>query\<close> never looks into it.\<close>

definition testClient :: "nat OverpassClient" where
  "testClient = \<lparr>endpoint = ''http://test-overpass-api'', format = json, lruCache = Map.empty,
                  maxRetries = 2, timeout = 60\<rparr>"

definition mockResponse :: "int \<Rightarrow> AxiosResponse" where
  "mockResponse code = \<lparr>status = code, statusText = None, data = '''', headers = None\<rparr>"

definition replyOnce :: "AxiosResponse \<Rightarrow> nat \<Rightarrow> nat \<Rightarrow> nat Outcome" where
  "replyOnce response mockData n =
     (if n = 0 then Rejected (AxiosError (Some response)) else Resolved mockData)"

definition reply :: "AxiosResponse \<Rightarrow> nat \<Rightarrow> nat Outcome" where
  "reply response n = Rejected (AxiosError (Some response))"

definition reply200 :: "nat \<Rightarrow> nat \<Rightarrow> nat Outcome" where
  "reply200 mockData n = Resolved mockData"


text \<open>A body with three error paragraphs, the second repeating the first.\<close>

definition threeErrorsHtml :: string where
  "threeErrorsHtml =
     ''<p><strong>Error</strong>: line 1: parse error </p>'' @
     ''<p><strong>Error</strong>: line 1: parse error </p>'' @
     ''<p><strong>Error</strong>: Unknown type &quot;nod&quot; </p>''"

section \<open>Lemmas\<close>

subsection \<open>The regular expression\<close>

text \<open>A text matches at its head exactly when it starts with the opening marker, a non-empty
  group without \<open><\<close>, and the closing marker.\<close>

lemma find_down_from:
  "\<not> P (Suc n) \<Longrightarrow> P n \<Longrightarrow> 0 < n \<Longrightarrow> find P (rev [1..<Suc (Suc n)]) = Some n"
  by (cases n) simp_all

lemma takeWhile_run:
  "CHR ''<'' \<notin> set g \<Longrightarrow>
   takeWhile (\<lambda>c. c \<noteq> CHR ''<'') (g @ '' </p>'' @ r) = g @ '' ''"
  by (induction g) auto

lemma matchHere_complete:
  assumes "g \<noteq> []" "CHR ''<'' \<notin> set g"
  shows "matchHere (''</strong>: '' @ g @ '' </p>'' @ r) = Some (g, r)"
proof -
  let ?rest = "g @ '' </p>'' @ r"
  have run: "takeWhile (\<lambda>c. c \<noteq> CHR ''<'') ?rest = g @ '' ''"
    using assms(2) by (rule takeWhile_run)
  have no: "\<not> take 5 (drop (Suc (length g)) ?rest) = '' </p>''"
    by simp
  have yes: "take 5 (drop (length g) ?rest) = '' </p>''"
    by simp
  have "find (\<lambda>m. take 5 (drop m ?rest) = '' </p>'') (rev [1..<Suc (Suc (length g))]) = Some (length g)"
    by (rule find_down_from[OF no yes]) (use assms(1) in simp)
  moreover have "take 11 (''</strong>: '' @ ?rest) = ''</strong>: ''"
    and "drop 11 (''</strong>: '' @ ?rest) = ?rest"
    and "take (length g) ?rest = g" and "drop (length g + 5) ?rest = r"
    and "length (g @ '' '') = Suc (length g)"
    by simp_all
  ultimately show ?thesis
    unfolding matchHere_def Let_def by (simp only: run if_True option.case) simp
qed

lemma matchHere_sound:
  assumes "matchHere s = Some (g, r)"
  shows "g \<noteq> [] \<and> CHR ''<'' \<notin> set g \<and> s = ''</strong>: '' @ g @ '' </p>'' @ r"
proof -
  define rest where "rest = drop 11 s"
  define run where "run = takeWhile (\<lambda>c. c \<noteq> CHR ''<'') rest"
  from assms have pre: "take 11 s = ''</strong>: ''"
    by (auto simp: matchHere_def split: if_splits)
  from assms pre obtain m where
    f: "find (\<lambda>m. take 5 (drop m rest) = '' </p>'') (rev [1..<Suc (length run)]) = Some m"
    and g: "g = take m rest" and r: "r = drop (m + 5) rest"
    by (auto simp: matchHere_def Let_def rest_def run_def split: option.splits)
  have found: "x \<in> set xs \<and> P x" if "find P xs = Some x" for P and xs :: "nat list" and x
    using that by (induction xs) (auto split: if_splits)
  from found[OF f] have m: "1 \<le> m" "m \<le> length run" and t: "take 5 (drop m rest) = '' </p>''"
    by auto
  have runp: "run = take (length run) rest"
    unfolding run_def by (metis takeWhile_eq_take)
  have "set run \<subseteq> {c. c \<noteq> CHR ''<''}"
    unfolding run_def by (auto dest: set_takeWhileD)
  moreover have "g = take m run"
    using m g runp by (metis min.absorb1 take_take)
  ultimately have nolt: "CHR ''<'' \<notin> set g"
    by (auto dest: in_set_takeD)
  have "length run \<le> length rest"
    unfolding run_def by (rule length_takeWhile_le)
  with m g have ne: "g \<noteq> []" by auto
  have "rest = take m rest @ take 5 (drop m rest) @ drop 5 (drop m rest)"
    by (simp only: append_take_drop_id)
  then have "rest = g @ '' </p>'' @ r"
    using g r t by (simp add: add.commute)
  moreover have "s = take 11 s @ rest"
    by (simp add: rest_def)
  ultimately show ?thesis
    using ne nolt pre by simp
qed

lemma exec_sound:
  "exec s = Some (g, r) \<Longrightarrow>
   g \<noteq> [] \<and> CHR ''<'' \<notin> set g \<and> (\<exists>pre. s = pre @ ''</strong>: '' @ g @ '' </p>'' @ r)"
proof (induction s)
  case Nil
  then show ?case by simp
next
  case (Cons c cs)
  show ?case
  proof (cases "matchHere (c # cs)")
    case None
    with Cons obtain pre where "g \<noteq> []" "CHR ''<'' \<notin> set g"
      "cs = pre @ ''</strong>: '' @ g @ '' </p>'' @ r"
      by auto
    then have "c # cs = (c # pre) @ ''</strong>: '' @ g @ '' </p>'' @ r"
      by simp
    with \<open>g \<noteq> []\<close> \<open>CHR ''<'' \<notin> set g\<close> show ?thesis by blast
  next
    case (Some a)
    with Cons.prems have "matchHere (c # cs) = Some (g, r)" by simp
    from matchHere_sound[OF this] show ?thesis
      by (metis append_Nil)
  qed
qed

lemma matchAll_sound:
  "g \<in> set (matchAll s) \<Longrightarrow>
   g \<noteq> [] \<and> CHR ''<'' \<notin> set g \<and> (\<exists>pre post. s = pre @ ''</strong>: '' @ g @ '' </p>'' @ post)"
proof (induction s rule: matchAll.induct)
  case (1 s)
  show ?case
  proof (cases "exec s")
    case None
    with "1.prems" show ?thesis by (simp add: matchAll.simps)
  next
    case (Some a)
    obtain g' r where a: "a = (g', r)" by (cases a)
    from exec_sound[OF Some[unfolded a]] obtain pre where
      g': "g' \<noteq> []" "CHR ''<'' \<notin> set g'" and s: "s = pre @ ''</strong>: '' @ g' @ '' </p>'' @ r"
      by auto
    from "1.prems" Some a have "g = g' \<or> g \<in> set (matchAll r)"
      by (simp add: matchAll.simps[of s])
    then show ?thesis
    proof
      assume "g = g'"
      with g' s show ?thesis by blast
    next
      assume "g \<in> set (matchAll r)"
      from "1.IH"[OF Some a[symmetric] this] obtain pre' post where
        "g \<noteq> []" "CHR ''<'' \<notin> set g" "r = pre' @ ''</strong>: '' @ g @ '' </p>'' @ post"
        by auto
      with s have "s = (pre @ ''</strong>: '' @ g' @ '' </p>'' @ pre') @ ''</strong>: '' @ g @ '' </p>'' @ post"
        by simp
      with \<open>g \<noteq> []\<close> \<open>CHR ''<'' \<notin> set g\<close> show ?thesis by blast
    qed
  qed
qed

lemma closing_suffix:
  assumes "ws @ us = ''</p>''" "us \<noteq> []" "hd us = CHR ''<''"
  shows "us = ''</p>''"
  using assms by (auto simp: append_eq_Cons_conv)

lemma match_suffix_opening:
  assumes eq: "xs @ us = ''</strong>: '' @ g' @ '' </p>''"
    and xs: "xs \<noteq> []" and us: "us \<noteq> []" "hd us = CHR ''<''"
    and g': "CHR ''<'' \<notin> set g'"
  shows "us = ''</p>''"
proof -
  define mid where "mid = ''/strong>: '' @ g' @ '' ''"
  have mid: "CHR ''<'' \<notin> set mid"
    using g' by (simp add: mid_def)
  from eq xs obtain xs2 where "xs = CHR ''<'' # xs2" and eq2: "xs2 @ us = mid @ ''</p>''"
    by (cases xs) (auto simp: mid_def)
  from eq2 obtain ws where
    "(xs2 = mid @ ws \<and> ws @ us = ''</p>'') \<or> (xs2 @ ws = mid \<and> us = ws @ ''</p>'')"
    by (auto simp: append_eq_append_conv2)
  then show ?thesis
  proof
    assume "xs2 = mid @ ws \<and> ws @ us = ''</p>''"
    then show ?thesis using us by (auto intro: closing_suffix)
  next
    assume a: "xs2 @ ws = mid \<and> us = ws @ ''</p>''"
    show ?thesis
    proof (cases ws)
      case Nil
      with a show ?thesis by simp
    next
      case (Cons w ws')
      with a us have "w = CHR ''<''" by simp
      moreover from a Cons have "w \<in> set mid" by auto
      ultimately show ?thesis using mid by simp
    qed
  qed
qed

lemma match_before_match:
  assumes g: "g \<noteq> []" "CHR ''<'' \<notin> set g" and g': "CHR ''<'' \<notin> set g'"
    and eq: "(c # pre) @ ''</strong>: '' @ g @ '' </p>'' @ post = ''</strong>: '' @ g' @ '' </p>'' @ r"
  shows "\<exists>pre'. r = pre' @ ''</strong>: '' @ g @ '' </p>'' @ post"
proof -
  from eq obtain us where
    "(c # pre = (''</strong>: '' @ g' @ '' </p>'') @ us \<and> us @ ''</strong>: '' @ g @ '' </p>'' @ post = r) \<or>
     ((c # pre) @ us = ''</strong>: '' @ g' @ '' </p>'' \<and> ''</strong>: '' @ g @ '' </p>'' @ post = us @ r)"
    using append_eq_append_conv2[of "c # pre" "''</strong>: '' @ g @ '' </p>'' @ post"
        "''</strong>: '' @ g' @ '' </p>''" r]
    by auto
  then show ?thesis
  proof
    assume "c # pre = (''</strong>: '' @ g' @ '' </p>'') @ us \<and> us @ ''</strong>: '' @ g @ '' </p>'' @ post = r"
    then show ?thesis by blast
  next
    assume b: "(c # pre) @ us = ''</strong>: '' @ g' @ '' </p>'' \<and> ''</strong>: '' @ g @ '' </p>'' @ post = us @ r"
    show ?thesis
    proof (cases "us = []")
      case True
      with b show ?thesis by (metis append_Nil)
    next
      case False
      with b have "hd us = CHR ''<''"
        by (cases us) auto
      with b False have "us = ''</p>''"
        using match_suffix_opening[of "c # pre" us g'] g' by simp
      with b show ?thesis by simp
    qed
  qed
qed

lemma exec_complete:
  assumes g: "g \<noteq> []" "CHR ''<'' \<notin> set g"
  shows "\<exists>g' r. exec (pre @ ''</strong>: '' @ g @ '' </p>'' @ post) = Some (g', r) \<and>
           ((g' = g \<and> r = post) \<or> (\<exists>pre'. r = pre' @ ''</strong>: '' @ g @ '' </p>'' @ post))"
proof (induction pre)
  case Nil
  have "matchHere (''</strong>: '' @ g @ '' </p>'' @ post) = Some (g, post)"
    using g by (rule matchHere_complete)
  then show ?case by simp
next
  case (Cons c pre)
  show ?case
  proof (cases "matchHere ((c # pre) @ ''</strong>: '' @ g @ '' </p>'' @ post)")
    case None
    with Cons show ?thesis by simp
  next
    case (Some a)
    obtain g' r where a: "a = (g', r)" by (cases a)
    from matchHere_sound[OF Some[unfolded a]]
    have g': "CHR ''<'' \<notin> set g'"
      and eq: "(c # pre) @ ''</strong>: '' @ g @ '' </p>'' @ post = ''</strong>: '' @ g' @ '' </p>'' @ r"
      by auto
    from match_before_match[OF g g' eq] Some a show ?thesis
      by auto
  qed
qed

lemma matchAll_complete:
  assumes g: "g \<noteq> []" "CHR ''<'' \<notin> set g"
  shows "s = pre @ ''</strong>: '' @ g @ '' </p>'' @ post \<Longrightarrow> g \<in> set (matchAll s)"
proof (induction s arbitrary: pre rule: matchAll.induct)
  case (1 s)
  from exec_complete[OF g, of pre post] "1.prems" obtain g' r where
    ex: "exec s = Some (g', r)"
    and alt: "(g' = g \<and> r = post) \<or> (\<exists>pre'. r = pre' @ ''</strong>: '' @ g @ '' </p>'' @ post)"
    by auto
  from alt show ?case
  proof
    assume "g' = g \<and> r = post"
    with ex show ?thesis by (simp add: matchAll.simps[of s])
  next
    assume "\<exists>pre'. r = pre' @ ''</strong>: '' @ g @ '' </p>'' @ post"
    then obtain pre' where "r = pre' @ ''</strong>: '' @ g @ '' </p>'' @ post" ..
    from "1.IH"[OF ex refl this] ex show ?thesis
      by (simp add: matchAll.simps[of s])
  qed
qed

lemma matchAll_iff:
  "g \<in> set (matchAll s) \<longleftrightarrow>
     g \<noteq> [] \<and> CHR ''<'' \<notin> set g \<and> (\<exists>pre post. s = pre @ ''</strong>: '' @ g @ '' </p>'' @ post)"
  using matchAll_sound matchAll_complete by blast

text \<open>The list, not only its members: the first group is that of the leftmost occurrence, and
  the scan goes on right after that occurrence.\<close>

lemma exec_leftmost:
  assumes g: "g \<noteq> []" "CHR ''<'' \<notin> set g"
    and free: "\<And>g' a b. g' \<noteq> [] \<Longrightarrow> CHR ''<'' \<notin> set g' \<Longrightarrow>
                 pre \<noteq> a @ ''</strong>: '' @ g' @ '' </p>'' @ b"
  shows "exec (pre @ ''</strong>: '' @ g @ '' </p>'' @ post) = Some (g, post)"
  using free
proof (induction pre)
  case Nil
  have "matchHere (''</strong>: '' @ g @ '' </p>'' @ post) = Some (g, post)"
    using g by (rule matchHere_complete)
  then show ?case by simp
next
  case (Cons c pre)
  have none: "matchHere ((c # pre) @ ''</strong>: '' @ g @ '' </p>'' @ post) = None"
  proof (rule ccontr)
    assume "matchHere ((c # pre) @ ''</strong>: '' @ g @ '' </p>'' @ post) \<noteq> None"
    then obtain g' r where m: "matchHere ((c # pre) @ ''</strong>: '' @ g @ '' </p>'' @ post) = Some (g', r)"
      by auto
    from matchHere_sound[OF m]
    have g': "g' \<noteq> []" "CHR ''<'' \<notin> set g'"
      and eq: "(c # pre) @ ''</strong>: '' @ g @ '' </p>'' @ post = ''</strong>: '' @ g' @ '' </p>'' @ r"
      by auto
    from match_before_match[OF g g'(2) eq] obtain pre' where
      r: "r = pre' @ ''</strong>: '' @ g @ '' </p>'' @ post"
      by blast
    with eq have "(c # pre) @ (''</strong>: '' @ g @ '' </p>'' @ post) =
        (''</strong>: '' @ g' @ '' </p>'' @ pre') @ (''</strong>: '' @ g @ '' </p>'' @ post)"
      by simp
    then have "c # pre = ''</strong>: '' @ g' @ '' </p>'' @ pre'"
      by (simp only: append_same_eq)
    then have "c # pre = [] @ ''</strong>: '' @ g' @ '' </p>'' @ pre'"
      by simp
    with Cons.prems[OF g'] show False by blast
  qed
  have "exec (pre @ ''</strong>: '' @ g @ '' </p>'' @ post) = Some (g, post)"
  proof (rule Cons.IH)
    fix g' a b
    assume "g' \<noteq> []" "CHR ''<'' \<notin> set g'"
    from Cons.prems[OF this, of "c # a" b]
    show "pre \<noteq> a @ ''</strong>: '' @ g' @ '' </p>'' @ b"
      by simp
  qed
  with none show ?case by simp
qed

lemma matchAll_first:
  assumes "g \<noteq> []" "CHR ''<'' \<notin> set g"
    and "\<And>g' a b. g' \<noteq> [] \<Longrightarrow> CHR ''<'' \<notin> set g' \<Longrightarrow>
                 pre \<noteq> a @ ''</strong>: '' @ g' @ '' </p>'' @ b"
  shows "matchAll (pre @ ''</strong>: '' @ g @ '' </p>'' @ post) = g # matchAll post"
proof -
  have found: "exec (pre @ ''</strong>: '' @ g @ '' </p>'' @ post) = Some (g, post)"
    using assms by (rule exec_leftmost)
  show ?thesis
    by (subst matchAll.simps) (simp only: found option.case prod.case)
qed

lemma matchAll_none:
  assumes "\<And>g pre post. g \<noteq> [] \<Longrightarrow> CHR ''<'' \<notin> set g \<Longrightarrow>
             s \<noteq> pre @ ''</strong>: '' @ g @ '' </p>'' @ post"
  shows "matchAll s = []"
proof (cases "matchAll s")
  case Nil
  then show ?thesis .
next
  case (Cons g gs)
  then have "g \<in> set (matchAll s)" by simp
  with matchAll_sound[of g s] assms show ?thesis by blast
qed

subsection \<open>Entity decoding\<close>

lemma take6_entity_append:
  assumes "a \<noteq> []"
  shows "take 6 (a @ ''&quot;'' @ b) = ''&quot;'' \<longleftrightarrow> take 6 a = ''&quot;''"
proof (cases "6 \<le> length a")
  case True
  then show ?thesis by simp
next
  case False
  then have "length a < 6" by simp
  then have "length (take 6 a) < 6" by simp
  then have r: "take 6 a \<noteq> ''&quot;''" by auto
  have "take 6 (a @ ''&quot;'' @ b) \<noteq> ''&quot;''"
  proof
    assume e: "take 6 (a @ ''&quot;'' @ b) = ''&quot;''"
    from assms \<open>length a < 6\<close> obtain k where k: "length a = Suc k" "k < 5"
      by (cases a) auto
    from e have "(take 6 (a @ ''&quot;'' @ b)) ! (Suc k) = ''&quot;'' ! (Suc k)"
      by simp
    moreover have "(take 6 (a @ ''&quot;'' @ b)) ! (Suc k) = CHR ''&''"
      using k by (simp add: nth_append)
    moreover have "''&quot;'' ! (Suc k) \<noteq> CHR ''&''"
      using k(2) by (cases k rule: nat.exhaust; simp; cases "k - 1"; simp; cases "k - 2"; simp;
          cases "k - 3"; simp; cases "k - 4"; simp)
    ultimately show False by simp
  qed
  with r show ?thesis by simp
qed

lemma replaceQuot_Cons_entity:
  "take 6 (c # cs) = ''&quot;'' \<Longrightarrow> replaceQuot (c # cs) = CHR 0x22 # replaceQuot (drop 5 cs)"
  by simp

lemma replaceQuot_Cons_other:
  "take 6 (c # cs) \<noteq> ''&quot;'' \<Longrightarrow> replaceQuot (c # cs) = c # replaceQuot cs"
  by simp

lemma replaceQuot_entity:
  "replaceQuot (a @ ''&quot;'' @ b) = replaceQuot a @ CHR 0x22 # replaceQuot b"
proof (induction a rule: replaceQuot.induct)
  case 1
  show ?case by simp
next
  case (2 c cs)
  define rest where "rest = ''&quot;'' @ b"
  show ?case
  proof (cases "take 6 (c # cs) = ''&quot;''")
    case True
    then have len: "5 \<le> length cs"
      by (auto dest!: arg_cong[where f = length])
    from True have t: "take 6 (c # (cs @ rest)) = ''&quot;''"
      using take6_entity_append[of "c # cs" b] by (simp add: rest_def)
    have "replaceQuot ((c # cs) @ rest) = replaceQuot (c # (cs @ rest))"
      by simp
    also have "\<dots> = CHR 0x22 # replaceQuot (drop 5 (cs @ rest))"
      using t by (rule replaceQuot_Cons_entity)
    also have "drop 5 (cs @ rest) = drop 5 cs @ rest"
      using len by simp
    also have "replaceQuot (drop 5 cs @ rest) = replaceQuot (drop 5 cs) @ CHR 0x22 # replaceQuot b"
      using "2.IH"(1)[OF True] by (simp only: rest_def)
    also have "CHR 0x22 # (replaceQuot (drop 5 cs) @ CHR 0x22 # replaceQuot b) =
        replaceQuot (c # cs) @ CHR 0x22 # replaceQuot b"
      by (simp only: replaceQuot_Cons_entity[OF True] append_Cons)
    finally show ?thesis by (simp only: rest_def)
  next
    case False
    then have t: "take 6 (c # (cs @ rest)) \<noteq> ''&quot;''"
      using take6_entity_append[of "c # cs" b] by (simp add: rest_def)
    have "replaceQuot ((c # cs) @ rest) = replaceQuot (c # (cs @ rest))"
      by simp
    also have "\<dots> = c # replaceQuot (cs @ rest)"
      using t by (rule replaceQuot_Cons_other)
    also have "\<dots> = c # (replaceQuot cs @ CHR 0x22 # replaceQuot b)"
      using "2.IH"(2)[OF False] by (simp only: rest_def)
    also have "\<dots> = replaceQuot (c # cs) @ CHR 0x22 # replaceQuot b"
      by (simp only: replaceQuot_Cons_other[OF False] append_Cons)
    finally show ?thesis by (simp only: rest_def)
  qed
qed

lemma replaceQuot_plain:
  "(\<And>a b. s \<noteq> a @ ''&quot;'' @ b) \<Longrightarrow> replaceQuot s = s"
proof (induction s)
  case Nil
  show ?case by simp
next
  case (Cons c cs)
  have "take 6 (c # cs) \<noteq> ''&quot;''"
  proof
    assume "take 6 (c # cs) = ''&quot;''"
    then have "c # cs = [] @ ''&quot;'' @ drop 6 (c # cs)"
      by (metis append_Nil append_take_drop_id)
    with Cons.prems show False by blast
  qed
  moreover have "replaceQuot cs = cs"
  proof (rule Cons.IH)
    fix a b
    show "cs \<noteq> a @ ''&quot;'' @ b"
      using Cons.prems[of "c # a" b] by simp
  qed
  ultimately show ?case by simp
qed

subsection \<open>Decimal text\<close>

lemma toString_60: "toString 60 = ''60''"
  by (simp add: toString_def digits.simps digitChar_def)


lemma encoded_query:
  "encodeURIComponent ''[out:json][timeout:60];node(123); out;'' =
     ''%5Bout%3Ajson%5D%5Btimeout%3A60%5D%3Bnode(123)%3B%20out%3B''"
  by (simp add: encodeURIComponent_def encodeChar_def isUnreserved_def percent_def hexDigit_def)

subsection \<open>One step of the retry loop\<close>

text \<open>The four ways one subscription to the source of \<open>query\<close> can go.\<close>

lemma loop_resolved:
  "transport n = Resolved d \<Longrightarrow>
   subscribeForRetry count delay (postAndTap transport body key) n s =
     (Next d, s\<lparr>lruCache := lruCache_set (lruCache s) key d\<rparr>, [Post body, CacheSet key d])"
  by (subst subscribeForRetry.simps) (simp add: postAndTap_def)

lemma loop_past:
  "transport n = Rejected e \<Longrightarrow> \<not> int n < count \<Longrightarrow>
   subscribeForRetry count delay (postAndTap transport body key) n s = (Error e, s, [Post body])"
  by (subst subscribeForRetry.simps) (simp add: postAndTap_def)

lemma loop_throw:
  "transport n = Rejected e \<Longrightarrow> int n < count \<Longrightarrow>
   delay e (Suc n) s = (ThrowError err, s2, es2) \<Longrightarrow>
   subscribeForRetry count delay (postAndTap transport body key) n s = (Error err, s2, Post body # es2)"
  by (subst subscribeForRetry.simps) (simp add: postAndTap_def)

lemma loop_timer:
  "transport n = Rejected e \<Longrightarrow> int n < count \<Longrightarrow>
   delay e (Suc n) s = (TimerNotifier ms, s2, es2) \<Longrightarrow>
   subscribeForRetry count delay (postAndTap transport body key) n s =
     (case subscribeForRetry count delay (postAndTap transport body key) (Suc n) s2 of
        (nt, s3, es3) \<Rightarrow> (nt, s3, Post body # es2 @ Timer ms # es3))"
  by (subst subscribeForRetry.simps) (simp add: postAndTap_def)

lemma loop_timer_prepend:
  "transport n = Rejected e \<Longrightarrow> int n < count \<Longrightarrow>
   delay e (Suc n) s = (TimerNotifier ms, s2, es2) \<Longrightarrow>
   subscribeForRetry count delay (postAndTap transport body key) n s =
     prepend (Post body # es2 @ [Timer ms])
       (subscribeForRetry count delay (postAndTap transport body key) (Suc n) s2)"
  by (cases "subscribeForRetry count delay (postAndTap transport body key) (Suc n) s2")
     (simp add: loop_timer[where e = e])

lemma request_loop_induct [case_names resolved past throw timer]:
  assumes resolved: "\<And>n s d. transport n = Resolved d \<Longrightarrow>
      P n s (Next d, s\<lparr>lruCache := lruCache_set (lruCache s) key d\<rparr>, [Post body, CacheSet key d])"
    and past: "\<And>n s e. transport n = Rejected e \<Longrightarrow> \<not> int n < count \<Longrightarrow>
      P n s (Error e, s, [Post body])"
    and throw: "\<And>n s e err s2 es2. transport n = Rejected e \<Longrightarrow> int n < count \<Longrightarrow>
      delay e (Suc n) s = (ThrowError err, s2, es2) \<Longrightarrow> P n s (Error err, s2, Post body # es2)"
    and timer: "\<And>n s e ms s2 es2 r s3 es3. transport n = Rejected e \<Longrightarrow> int n < count \<Longrightarrow>
      delay e (Suc n) s = (TimerNotifier ms, s2, es2) \<Longrightarrow>
      subscribeForRetry count delay (postAndTap transport body key) (Suc n) s2 = (r, s3, es3) \<Longrightarrow>
      P (Suc n) s2 (r, s3, es3) \<Longrightarrow> P n s (r, s3, Post body # es2 @ Timer ms # es3)"
  shows "P n s (subscribeForRetry count delay (postAndTap transport body key) n s)"
proof (induction "nat (count - int n)" arbitrary: n s)
  case 0
  then have past': "\<not> int n < count" by simp
  show ?case
  proof (cases "transport n")
    case (Resolved d)
    show ?thesis
      using resolved[OF Resolved, of s] by (simp add: loop_resolved Resolved)
  next
    case (Rejected e)
    show ?thesis
      using past[OF Rejected past', of s] past' by (simp add: loop_past Rejected)
  qed
next
  case (Suc k)
  then have less: "int n < count" by linarith
  show ?case
  proof (cases "transport n")
    case (Resolved d)
    show ?thesis
      using resolved[OF Resolved, of s] by (simp add: loop_resolved Resolved)
  next
    case (Rejected e)
    obtain nt s2 es2 where d: "delay e (Suc n) s = (nt, s2, es2)"
      by (cases "delay e (Suc n) s") auto
    show ?thesis
    proof (cases nt)
      case (ThrowError err)
      then show ?thesis
        using throw[OF Rejected less d[unfolded ThrowError]] d less
        by (simp add: loop_throw[where e = e] Rejected)
    next
      case (TimerNotifier ms)
      obtain r s3 es3 where rec:
        "subscribeForRetry count delay (postAndTap transport body key) (Suc n) s2 = (r, s3, es3)"
        by (cases "subscribeForRetry count delay (postAndTap transport body key) (Suc n) s2") auto
      have "k = nat (count - int (Suc n))"
        using Suc.hyps(2) by linarith
      then have "P (Suc n) s2 (subscribeForRetry count delay (postAndTap transport body key) (Suc n) s2)"
        by (rule Suc.hyps(1))
      then have "P (Suc n) s2 (r, s3, es3)"
        by (simp add: rec)
      then show ?thesis
        using timer[OF Rejected less d[unfolded TimerNotifier] rec] d TimerNotifier rec less
        by (simp add: loop_timer[where e = e] Rejected)
    qed
  qed
qed

lemma subscribeForRetry_delivers:
  "subscribeForRetry count delay (postAndTap transport body key) n s = (Next d, s', es) \<Longrightarrow>
   lruCache s' key = Some d \<and> (\<exists>es0. es = es0 @ [Post body, CacheSet key d]) \<and>
   (\<exists>m. transport m = Resolved d)"
proof -
  define P where "P = (\<lambda>(n::nat) (s::'a OverpassClient) (r :: 'a Notification \<times> 'a OverpassClient \<times> 'a Effect list).
     \<forall>d s' es. r = (Next d, s', es) \<longrightarrow>
       lruCache s' key = Some d \<and> (\<exists>es0. es = es0 @ [Post body, CacheSet key d]) \<and>
       (\<exists>m. transport m = Resolved d))"
  have "P n s (subscribeForRetry count delay (postAndTap transport body key) n s)"
  proof (induction rule: request_loop_induct)
    case (resolved n s d)
    then show ?case by (auto simp: P_def lruCache_set_def)
  next
    case (past n s e)
    then show ?case by (simp add: P_def)
  next
    case (throw n s e err s2 es2)
    then show ?case by (simp add: P_def)
  next
    case (timer n s e ms s2 es2 r s3 es3)
    then show ?case
      by (auto simp: P_def)
  qed
  then show "subscribeForRetry count delay (postAndTap transport body key) n s = (Next d, s', es) \<Longrightarrow>
   lruCache s' key = Some d \<and> (\<exists>es0. es = es0 @ [Post body, CacheSet key d]) \<and>
   (\<exists>m. transport m = Resolved d)"
    by (simp add: P_def)
qed

lemma query_delivers:
  assumes "query this transport random q cachedKey = (Next d, this', es)"
  shows "lruCache this' cachedKey = Some d \<and>
         (\<exists>es0. es = es0 @ [Post (requestBody this q), CacheSet cachedKey d]) \<and>
         (\<exists>n. transport n = Resolved d)"
proof (cases "maxRetries this \<le> 0")
  case True
  with assms have "postAndTap transport (requestBody this q) cachedKey 0 this = (Next d, this', es)"
    by (simp add: query_def retry_def)
  then show ?thesis
    by (cases "transport 0") (auto simp: postAndTap_def lruCache_set_def)
next
  case False
  with assms have "subscribeForRetry (maxRetries this) (retryDelay random q cachedKey)
      (postAndTap transport (requestBody this q) cachedKey) 0 this = (Next d, this', es)"
    by (simp add: query_def retry_def)
  then show ?thesis
    by (rule subscribeForRetry_delivers)
qed

text \<open>\<open>query\<close> is the loop from attempt 0, for every retry budget: with \<open>count \<le> 0\<close> the loop
  passes the first outcome on, as the identity operator does.\<close>

lemma query_as_loop:
  "query this transport random q cachedKey =
     subscribeForRetry (maxRetries this) (retryDelay random q cachedKey)
       (postAndTap transport (requestBody this q) cachedKey) 0 this"
proof (cases "maxRetries this \<le> 0")
  case True
  then have "\<not> int 0 < maxRetries this" by simp
  then show ?thesis
    using True
    by (cases "transport 0") (simp_all add: query_def retry_def loop_resolved loop_past postAndTap_def)
next
  case False
  then show ?thesis
    by (simp add: query_def retry_def)
qed

subsection \<open>The delay callback\<close>

lemma retryDelay_exhausted:
  "maxRetries this \<le> int attempt \<Longrightarrow>
   retryDelay random q key (AxiosError response) attempt this =
     (ThrowError (OverpassError (''Max retries exceeded. Request failed '' @
         (case response of None \<Rightarrow> '''' | Some r \<Rightarrow> (case statusText r of None \<Rightarrow> '''' | Some t \<Rightarrow> t)))
         None (Some q)),
      this\<lparr>lruCache := lruCache_delete (lruCache this) key\<rparr>, [CacheDelete key])"
  by (simp add: retryDelay_def Let_def)

lemma retryDelay_400:
  "status r = 400 \<Longrightarrow> int attempt < maxRetries this \<Longrightarrow>
   retryDelay random q key (AxiosError (Some r)) attempt this =
     (ThrowError (OverpassError ''Bad Request Error'' (Some (map replaceQuot (matchAll (data r)))) (Some q)),
      this\<lparr>lruCache := lruCache_delete (lruCache this) key\<rparr>, [CacheDelete key])"
  by (simp add: retryDelay_def Let_def)

lemma retryDelay_backoff:
  "status r \<in> {500, 502, 503, 504} \<or> status r = 429 \<and> retryAfterHeader r = None \<Longrightarrow>
   int attempt < maxRetries this \<Longrightarrow>
   retryDelay random q key (AxiosError (Some r)) attempt this =
     (TimerNotifier (Number (random attempt * (2 ^ attempt * 1000))),
      this\<lparr>lruCache := lruCache_delete (lruCache this) key\<rparr>,
      [CacheDelete key,
       ConsoleWarn (TransientError (Number (random attempt * (2 ^ attempt * 1000) / 1000)))])"
  by (auto simp: retryDelay_def retryAfter_def Let_def)

lemma retryDelay_rate_limit:
  "status r = 429 \<Longrightarrow> retryAfterHeader r = Some ms \<Longrightarrow> int attempt < maxRetries this \<Longrightarrow>
   retryDelay random q key (AxiosError (Some r)) attempt this =
     (TimerNotifier ms, this\<lparr>lruCache := lruCache_delete (lruCache this) key\<rparr>,
      [CacheDelete key, ConsoleWarn (RateLimitReached (divide_by ms 1000))])"
  by (simp add: retryDelay_def retryAfter_def Let_def)

lemma retryDelay_fatal:
  "e = AxiosError None \<or> (\<exists>r. e = AxiosError (Some r) \<and> status r \<notin> {429, 500, 502, 503, 504}) \<Longrightarrow>
   int attempt < maxRetries this \<Longrightarrow>
   \<exists>err. retryDelay random q key e attempt this =
     (ThrowError (OverpassErrorObject err),
      this\<lparr>lruCache := lruCache_delete (lruCache this) key\<rparr>, [CacheDelete key])"
  by (auto simp: retryDelay_def Let_def OverpassError_def)

lemma retryDelay_other:
  "\<not> isAxiosError e \<Longrightarrow>
   retryDelay random q key e attempt this =
     (ThrowError (OverpassError ''Unknown error occurred'' None (Some q)), this, [])"
  by (cases e) (simp_all add: retryDelay_def isAxiosError_def)

lemma retryDelay_no_post: "retryDelay random q key e attempt s = (nt, s2, es2) \<Longrightarrow> Post b \<notin> set es2"
  by (auto simp: retryDelay_def retryAfter_def Let_def
      split: JSError.splits option.splits if_splits)

lemma loop_posts_body:
  "Post b \<in> set (snd (snd (subscribeForRetry count (retryDelay random q key)
      (postAndTap transport body key) n s))) \<Longrightarrow> b = body"
proof -
  define P where "P = (\<lambda>(n::nat) (s::'a OverpassClient)
      (r :: 'a Notification \<times> 'a OverpassClient \<times> 'a Effect list).
      Post b \<in> set (snd (snd r)) \<longrightarrow> b = body)"
  have "P n s (subscribeForRetry count (retryDelay random q key) (postAndTap transport body key) n s)"
  proof (induction rule: request_loop_induct)
    case (resolved n s d)
    show ?case by (simp add: P_def)
  next
    case (past n s e)
    show ?case by (simp add: P_def)
  next
    case (throw n s e err s2 es2)
    then show ?case by (auto simp: P_def dest: retryDelay_no_post)
  next
    case (timer n s e ms s2 es2 r s3 es3)
    then show ?case by (auto simp: P_def dest: retryDelay_no_post)
  qed
  then show "Post b \<in> set (snd (snd (subscribeForRetry count (retryDelay random q key)
      (postAndTap transport body key) n s))) \<Longrightarrow> b = body"
    by (simp add: P_def)
qed

subsection \<open>Retryable failures on every attempt\<close>

text \<open>With a retry budget of at least one, the run ends at the attempt whose number equals
  \<open>maxRetries\<close>, with the exhaustion error and without an entry under the key.\<close>

lemma exhausting_run:
  assumes retryable: "\<And>n. \<exists>r. transport n = Rejected (AxiosError (Some r)) \<and>
                          status r \<in> {429, 500, 502, 503, 504}"
    and count: "maxRetries s = count" and less: "int n < count"
  shows "\<exists>r es. transport (nat count - 1) = Rejected (AxiosError (Some r)) \<and>
     subscribeForRetry count (retryDelay random q key) (postAndTap transport body key) n s =
       (Error (OverpassError (''Max retries exceeded. Request failed '' @
                 (case statusText r of None \<Rightarrow> '''' | Some t \<Rightarrow> t)) None (Some q)),
        s\<lparr>lruCache := lruCache_delete (lruCache s) key\<rparr>, es) \<and>
     postCount es = nat count - n"
  using count less
proof (induction "nat count - Suc n" arbitrary: n s)
  case 0
  then have last: "int (Suc n) = count" by linarith
  from retryable[of n] obtain r where r: "transport n = Rejected (AxiosError (Some r))"
    by blast
  have d: "retryDelay random q key (AxiosError (Some r)) (Suc n) s =
      (ThrowError (OverpassError (''Max retries exceeded. Request failed '' @
         (case statusText r of None \<Rightarrow> '''' | Some t \<Rightarrow> t)) None (Some q)),
       s\<lparr>lruCache := lruCache_delete (lruCache s) key\<rparr>, [CacheDelete key])"
    using retryDelay_exhausted[of s "Suc n" random q key "Some r"] 0 last by simp
  have n: "nat count - 1 = n" using last by linarith
  show ?case
    apply (rule exI[of _ r])
    apply (rule exI[of _ "[Post body, CacheDelete key]"])
    using r 0 last n
    by (simp add: loop_throw[where e = "AxiosError (Some r)"] d)
next
  case (Suc k)
  then have more: "int (Suc n) < count" by linarith
  from retryable[of n] obtain r where r: "transport n = Rejected (AxiosError (Some r))"
    and st: "status r \<in> {429, 500, 502, 503, 504}"
    by blast
  define s2 where "s2 = s\<lparr>lruCache := lruCache_delete (lruCache s) key\<rparr>"
  have "\<exists>ms es2. retryDelay random q key (AxiosError (Some r)) (Suc n) s = (TimerNotifier ms, s2, es2)
      \<and> postCount es2 = 0"
  proof (cases "status r = 429 \<and> retryAfterHeader r \<noteq> None")
    case True
    then obtain ms where "retryAfterHeader r = Some ms" by auto
    with True show ?thesis
      using retryDelay_rate_limit[of r ms "Suc n" s random q key] more Suc.prems
      by (simp add: s2_def)
  next
    case False
    with st have "status r \<in> {500, 502, 503, 504} \<or> status r = 429 \<and> retryAfterHeader r = None"
      by auto
    then show ?thesis
      using retryDelay_backoff[of r "Suc n" s random q key] more Suc.prems
      by (simp add: s2_def)
  qed
  then obtain ms es2 where d: "retryDelay random q key (AxiosError (Some r)) (Suc n) s = (TimerNotifier ms, s2, es2)"
    and p2: "postCount es2 = 0"
    by blast
  have k: "k = nat count - Suc (Suc n)" using Suc.hyps(2) by linarith
  have m2: "maxRetries s2 = count" using Suc.prems by (simp add: s2_def)
  from Suc.hyps(1)[OF k m2 more] obtain r' es where
    last: "transport (nat count - 1) = Rejected (AxiosError (Some r'))"
    and run: "subscribeForRetry count (retryDelay random q key) (postAndTap transport body key) (Suc n) s2 =
       (Error (OverpassError (''Max retries exceeded. Request failed '' @
                 (case statusText r' of None \<Rightarrow> '''' | Some t \<Rightarrow> t)) None (Some q)),
        s2\<lparr>lruCache := lruCache_delete (lruCache s2) key\<rparr>, es)"
    and pc: "postCount es = nat count - Suc n"
    by blast
  have pc_append: "postCount (xs @ ys) = postCount xs + postCount ys" for xs ys :: "'a Effect list"
    by (induction xs rule: postCount.induct) simp_all
  have "subscribeForRetry count (retryDelay random q key) (postAndTap transport body key) n s =
      (Error (OverpassError (''Max retries exceeded. Request failed '' @
                 (case statusText r' of None \<Rightarrow> '''' | Some t \<Rightarrow> t)) None (Some q)),
        s\<lparr>lruCache := lruCache_delete (lruCache s) key\<rparr>, Post body # es2 @ Timer ms # es)"
    using Suc.prems r run
    by (simp add: loop_timer[where e = "AxiosError (Some r)"] d) (simp add: s2_def lruCache_delete_def)
  moreover have "postCount (Post body # es2 @ Timer ms # es) = nat count - n"
    using pc p2 more by (simp add: pc_append)
  ultimately show ?case using last by blast
qed

lemma query_exhausts_budget:
  assumes "\<And>n. \<exists>r. transport n = Rejected (AxiosError (Some r)) \<and>
                          status r \<in> {429, 500, 502, 503, 504}"
    and "1 \<le> maxRetries this"
  shows "\<exists>r es. transport (nat (maxRetries this) - 1) = Rejected (AxiosError (Some r)) \<and>
     query this transport random q cachedKey =
       (Error (OverpassError (''Max retries exceeded. Request failed '' @
                 (case statusText r of None \<Rightarrow> '''' | Some t \<Rightarrow> t)) None (Some q)),
        this\<lparr>lruCache := lruCache_delete (lruCache this) cachedKey\<rparr>, es) \<and>
     postCount es = nat (maxRetries this) \<and> int (postCount es) \<le> maxRetries this + 1 \<and>
     lruCache_get (lruCache_delete (lruCache this) cachedKey) cachedKey = None"
proof -
  from assms(2) have "int 0 < maxRetries this" by simp
  from exhausting_run[where transport = transport, OF assms(1) refl this, of random q cachedKey "requestBody this q"]
  show ?thesis
    using assms(2) by (auto simp: query_def retry_def lruCache_get_def lruCache_delete_def)
qed

section \<open>The claims\<close>

text \<open>
  A request is one run of \<open>query\<close>, reached from an entry point on a cache miss. The statements
  on a single attempt are about the loop \<open>subscribeForRetry\<close> at the attempt with index \<open>n\<close>,
  counted from 0, in a client state \<open>s\<close>; by \<open>query_as_loop\<close> the request is that loop from
  attempt 0. The callback of \<open>retry\<close> sees the number \<open>n + 1\<close>. Ids and the timeout are
  integers, the transport is given by its successive outcomes, and \<open>random k\<close> is what
  \<open>Math.random()\<close> returns when the callback runs for the failure number \<open>k\<close>.
\<close>

text \<open>
  C1. With \<open>maxRetries = R\<close> and a transport that fails with a retryable status on every
  attempt, the transport is invoked at most \<open>R + 1\<close> times, the caller receives the
  exhaustion error, and the cache holds no entry under the key afterwards.
  For \<open>R \<ge> 1\<close> this is \<open>query_exhausts_budget\<close>. For \<open>R = 0\<close> the \<open>retry\<close> operator is the
  identity: the delay callback, which builds every \<open>OverpassError\<close> and deletes the cache
  entry, never runs, and the caller receives the transport's own error.
\<close>

theorem query_without_retries_passes_transport_error:
  "query (testClient\<lparr>maxRetries := 0\<rparr>) (reply (mockResponse 503)) (\<lambda>_. 1 / 2)
       ''node(123); out;'' ''node-123'' =
     (Error (AxiosError (Some (mockResponse 503))), testClient\<lparr>maxRetries := 0\<rparr>,
      [Post (requestBody (testClient\<lparr>maxRetries := 0\<rparr>) ''node(123); out;'')]) \<and>
   AxiosError (Some (mockResponse 503)) \<noteq>
     OverpassError ''Max retries exceeded. Request failed '' None (Some ''node(123); out;'')"
  by (simp add: query_def retry_def postAndTap_def reply_def testClient_def OverpassError_def)

text \<open>
  C2, as stated: a failure classified as fatal leaves the cache as it was. The callback
  deletes the entry under the key for every Axios error, before it classifies. Requests
  for one key are not coalesced: while a request is in flight, another one for the same
  key can complete and store its payload; a 400 answer to the first then removes that
  entry.
\<close>

theorem fatal_error_deletes_entry_counterexample:
  "query testClient (reply200 7) (\<lambda>_. 1 / 2) ''node(123); out;'' ''node-123'' =
     (Next 7, testClient\<lparr>lruCache := [''node-123'' \<mapsto> 7]\<rparr>,
      [Post (requestBody testClient ''node(123); out;''), CacheSet ''node-123'' 7]) \<and>
   lruCache_get (lruCache (testClient\<lparr>lruCache := [''node-123'' \<mapsto> 7]\<rparr>)) ''node-123'' = Some 7 \<and>
   query (testClient\<lparr>lruCache := [''node-123'' \<mapsto> 7]\<rparr>) (reply (mockResponse 400)) (\<lambda>_. 1 / 2)
       ''node(123); out;'' ''node-123'' =
     (Error (OverpassError ''Bad Request Error'' (Some []) (Some ''node(123); out;'')),
      testClient,
      [Post (requestBody (testClient\<lparr>lruCache := [''node-123'' \<mapsto> 7]\<rparr>) ''node(123); out;''),
       CacheDelete ''node-123'']) \<and>
   lruCache_get (lruCache testClient) ''node-123'' = None"
  by (simp add: query_def retry_def testClient_def reply_def reply200_def mockResponse_def
      loop_throw[where e = "AxiosError (Some (mockResponse 400))"] loop_resolved retryDelay_400
      lruCache_delete_def lruCache_get_def lruCache_set_def matchAll.simps)

text \<open>
  C2, amended: a failed attempt that is not the exhausting one and whose error is fatal
  (no response, a status outside 429/500/502/503/504, or not an Axios error) ends the
  request at once: one \<open>post\<close>, no timer, an \<open>OverpassError\<close> for the caller. A non-Axios error
  leaves the cache as it was; an Axios error deletes the entry under the request's key
  and leaves every other key as it was.
\<close>

theorem fatal_failure_ends_request:
  assumes "transport n = Rejected e" and "int (Suc n) < maxRetries s"
    and "e = AxiosError None \<or> (\<exists>r. e = AxiosError (Some r) \<and> status r \<notin> {429, 500, 502, 503, 504})
         \<or> \<not> isAxiosError e"
  shows "(\<exists>err. subscribeForRetry (maxRetries s) (retryDelay random q cachedKey)
                  (postAndTap transport body cachedKey) n s =
            (Error (OverpassErrorObject err),
             (if isAxiosError e then s\<lparr>lruCache := lruCache_delete (lruCache s) cachedKey\<rparr> else s),
             (if isAxiosError e then [Post body, CacheDelete cachedKey] else [Post body]))) \<and>
         lruCache_get (lruCache_delete (lruCache s) cachedKey) cachedKey = None \<and>
         (k \<noteq> cachedKey \<longrightarrow>
            lruCache_get (lruCache_delete (lruCache s) cachedKey) k = lruCache_get (lruCache s) k)"
proof -
  from assms(2) have less: "int n < maxRetries s" by simp
  have "\<exists>err. subscribeForRetry (maxRetries s) (retryDelay random q cachedKey)
                  (postAndTap transport body cachedKey) n s =
            (Error (OverpassErrorObject err),
             (if isAxiosError e then s\<lparr>lruCache := lruCache_delete (lruCache s) cachedKey\<rparr> else s),
             (if isAxiosError e then [Post body, CacheDelete cachedKey] else [Post body]))"
  proof (cases "isAxiosError e")
    case True
    with assms(3) have "e = AxiosError None \<or>
        (\<exists>r. e = AxiosError (Some r) \<and> status r \<notin> {429, 500, 502, 503, 504})"
      by blast
    from retryDelay_fatal[OF this assms(2), of random q cachedKey] obtain err where
      "retryDelay random q cachedKey e (Suc n) s =
         (ThrowError (OverpassErrorObject err),
          s\<lparr>lruCache := lruCache_delete (lruCache s) cachedKey\<rparr>, [CacheDelete cachedKey])"
      by blast
    with assms(1) less True show ?thesis
      by (simp add: loop_throw[where e = e])
  next
    case False
    from retryDelay_other[OF False, of random q cachedKey "Suc n" s] assms(1) less False
    show ?thesis
      by (simp add: loop_throw[where e = e] OverpassError_def)
  qed
  then show ?thesis
    by (simp add: lruCache_get_def lruCache_delete_def)
qed

theorem fatal_failure_ends_request_witness:
  "reply (mockResponse 418) 0 = Rejected (AxiosError (Some (mockResponse 418))) \<and>
   int (Suc 0) < maxRetries (testClient\<lparr>lruCache := [''node-123'' \<mapsto> 7, ''way-456'' \<mapsto> 8]\<rparr>) \<and>
   status (mockResponse 418) \<notin> {429, 500, 502, 503, 504} \<and>
   (\<exists>err. subscribeForRetry 2 (retryDelay (\<lambda>_. 1 / 2) ''node(123); out;'' ''node-123'')
            (postAndTap (reply (mockResponse 418)) ''data=q'' ''node-123'') 0
            (testClient\<lparr>lruCache := [''node-123'' \<mapsto> 7, ''way-456'' \<mapsto> 8]\<rparr>) =
      (Error (OverpassErrorObject err), testClient\<lparr>lruCache := [''way-456'' \<mapsto> 8]\<rparr>,
       [Post ''data=q'', CacheDelete ''node-123''])) \<and>
   lruCache_get [''way-456'' \<mapsto> (8::nat)] ''node-123'' = None \<and>
   lruCache_get [''way-456'' \<mapsto> (8::nat)] ''way-456'' = Some 8 \<and>
   \<not> isAxiosError OtherError \<and>
   (\<exists>err. subscribeForRetry 2 (retryDelay (\<lambda>_. 1 / 2) ''node(123); out;'' ''node-123'')
            (postAndTap (\<lambda>_. Rejected OtherError) ''data=q'' ''node-123'') 0
            (testClient\<lparr>lruCache := [''node-123'' \<mapsto> 7, ''way-456'' \<mapsto> 8]\<rparr>) =
      (Error (OverpassErrorObject err),
       testClient\<lparr>lruCache := [''node-123'' \<mapsto> 7, ''way-456'' \<mapsto> 8]\<rparr>, [Post ''data=q'']))"
proof -
  let ?s = "testClient\<lparr>lruCache := [''node-123'' \<mapsto> 7, ''way-456'' \<mapsto> 8]\<rparr>"
  have a: "reply (mockResponse 418) 0 = Rejected (AxiosError (Some (mockResponse 418)))"
    and a': "(\<lambda>_. Rejected OtherError :: nat Outcome) (0::nat) = Rejected OtherError"
    by (simp_all add: reply_def)
  have b: "int (Suc 0) < maxRetries ?s"
    by (simp add: testClient_def)
  have c: "status (mockResponse 418) \<notin> {429, 500, 502, 503, 504}"
    by (simp add: mockResponse_def)
  have d: "AxiosError (Some (mockResponse 418)) = AxiosError None \<or>
      (\<exists>r. AxiosError (Some (mockResponse 418)) = AxiosError (Some r) \<and>
           status r \<notin> {429, 500, 502, 503, 504}) \<or>
      \<not> isAxiosError (AxiosError (Some (mockResponse 418)))"
    using c by simp
  have other: "\<not> isAxiosError OtherError"
    by (simp add: isAxiosError_def)
  then have d': "OtherError = AxiosError None \<or>
      (\<exists>r. OtherError = AxiosError (Some r) \<and> status r \<notin> {429, 500, 502, 503, 504}) \<or>
      \<not> isAxiosError OtherError"
    by simp
  have del: "lruCache_delete [''node-123'' \<mapsto> 7, ''way-456'' \<mapsto> (8::nat)] ''node-123'' = [''way-456'' \<mapsto> 8]"
    by (auto simp: lruCache_delete_def)
  from fatal_failure_ends_request[where transport = "reply (mockResponse 418)" and n = 0 and s = ?s
      and random = "\<lambda>_. 1 / 2" and q = "''node(123); out;''" and cachedKey = "''node-123''"
      and body = "''data=q''" and k = "''way-456''", OF a b d]
  have first: "(\<exists>err. subscribeForRetry 2 (retryDelay (\<lambda>_. 1 / 2) ''node(123); out;'' ''node-123'')
            (postAndTap (reply (mockResponse 418)) ''data=q'' ''node-123'') 0 ?s =
      (Error (OverpassErrorObject err), testClient\<lparr>lruCache := [''way-456'' \<mapsto> 8]\<rparr>,
       [Post ''data=q'', CacheDelete ''node-123''])) \<and>
   lruCache_get [''way-456'' \<mapsto> (8::nat)] ''node-123'' = None \<and>
   lruCache_get [''way-456'' \<mapsto> (8::nat)] ''way-456'' = Some 8"
    by (simp add: isAxiosError_def testClient_def del lruCache_get_def)
  from fatal_failure_ends_request[where transport = "\<lambda>_. Rejected OtherError" and n = 0 and s = ?s
      and e = OtherError
      and random = "\<lambda>_. 1 / 2" and q = "''node(123); out;''" and cachedKey = "''node-123''"
      and body = "''data=q''" and k = "''way-456''", OF a' b d'] other
  have second: "\<exists>err. subscribeForRetry 2 (retryDelay (\<lambda>_. 1 / 2) ''node(123); out;'' ''node-123'')
            (postAndTap (\<lambda>_. Rejected OtherError) ''data=q'' ''node-123'') 0 ?s =
      (Error (OverpassErrorObject err), ?s, [Post ''data=q''])"
    by (simp add: testClient_def)
  from a b c first other second show ?thesis
    by blast
qed

text \<open>
  C3, as stated: the wait before the first retry lies in \<open>[0, 1000)\<close> ms. \<open>retry\<close> hands the
  callback the incremented counter, 1 at the first failure, so the base of the first wait
  is \<open>2^1 * 1000\<close>: with \<open>Math.random() = 3/4\<close> the first wait is 1500 ms.
\<close>

theorem first_backoff_wait_counterexample:
  "timers (snd (snd (query testClient (replyOnce (mockResponse 503) 7) (\<lambda>_. 3 / 4)
                       ''node(123); out;'' ''node-123''))) = [Number 1500] \<and>
   \<not> (1500 < (2::real) ^ 0 * 1000)"
  by (simp add: query_def retry_def testClient_def replyOnce_def mockResponse_def
      loop_timer[where e = "AxiosError (Some (mockResponse 503))"] loop_resolved retryDelay_backoff)

text \<open>
  C3, amended: for a failure with status 500, 502, 503 or 504, or with status 429 and a
  \<open>retry-after\<close> header that is absent or empty, at the attempt with index \<open>n\<close> counted from 0
  and not the exhausting one, the wait scheduled before the next attempt is
  \<open>Math.random() * 2^(n+1) * 1000\<close> ms, which lies in \<open>[0, 2^(n+1) * 1000)\<close>: in \<open>[0, 2000)\<close> before
  the first retry, in \<open>[0, 4000)\<close> before the second. The run goes on with attempt \<open>n + 1\<close>
  after that timer. A 429 whose header is present and not empty is not covered here.
\<close>

theorem backoff_wait_range:
  assumes "transport n = Rejected (AxiosError (Some r))"
    and "status r \<in> {500, 502, 503, 504} \<or>
         status r = 429 \<and> (header r ''retry-after'' = None \<or> header r ''retry-after'' = Some '''')"
    and "int (Suc n) < maxRetries s"
    and "0 \<le> random (Suc n)" and "random (Suc n) < 1"
  shows "\<exists>w. w = random (Suc n) * (2 ^ Suc n * 1000) \<and> 0 \<le> w \<and> w < 2 ^ Suc n * 1000 \<and>
     subscribeForRetry (maxRetries s) (retryDelay random q cachedKey)
         (postAndTap transport body cachedKey) n s =
       prepend [Post body, CacheDelete cachedKey, ConsoleWarn (TransientError (Number (w / 1000))),
                Timer (Number w)]
         (subscribeForRetry (maxRetries s) (retryDelay random q cachedKey)
            (postAndTap transport body cachedKey) (Suc n)
            (s\<lparr>lruCache := lruCache_delete (lruCache s) cachedKey\<rparr>))"
proof -
  define w where "w = random (Suc n) * (2 ^ Suc n * 1000)"
  have "0 \<le> w"
    using assms(4) by (simp add: w_def)
  moreover have "w < 2 ^ Suc n * 1000"
  proof -
    have "random (Suc n) * (2 ^ Suc n * 1000) < 1 * (2 ^ Suc n * 1000)"
      using assms(5) by (intro mult_strict_right_mono) simp_all
    then show ?thesis by (simp add: w_def)
  qed
  moreover have "subscribeForRetry (maxRetries s) (retryDelay random q cachedKey)
         (postAndTap transport body cachedKey) n s =
       prepend [Post body, CacheDelete cachedKey, ConsoleWarn (TransientError (Number (w / 1000))),
                Timer (Number w)]
         (subscribeForRetry (maxRetries s) (retryDelay random q cachedKey)
            (postAndTap transport body cachedKey) (Suc n)
            (s\<lparr>lruCache := lruCache_delete (lruCache s) cachedKey\<rparr>))"
  proof -
    from assms(2) have "status r \<in> {500, 502, 503, 504} \<or> status r = 429 \<and> retryAfterHeader r = None"
      by (auto simp: retryAfterHeader_def)
    from retryDelay_backoff[OF this assms(3), of random q cachedKey] assms(1,3)
    show ?thesis
      by (simp add: loop_timer_prepend[where e = "AxiosError (Some r)"] w_def)
  qed
  ultimately show ?thesis
    using w_def by blast
qed

theorem backoff_wait_range_witness:
  "replyOnce (mockResponse 503) 7 0 = Rejected (AxiosError (Some (mockResponse 503))) \<and>
   status (mockResponse 503) \<in> {500, 502, 503, 504} \<and>
   int (Suc 0) < maxRetries testClient \<and> (0::real) \<le> 3 / 4 \<and> (3 / 4 :: real) < 1 \<and>
   (\<exists>w. w = 3 / 4 * (2 ^ Suc 0 * 1000) \<and> 0 \<le> w \<and> w < 2 ^ Suc 0 * 1000 \<and>
     subscribeForRetry 2 (retryDelay (\<lambda>_. 3 / 4) ''node(123); out;'' ''node-123'')
         (postAndTap (replyOnce (mockResponse 503) 7) ''data=q'' ''node-123'') 0 testClient =
       (Next 7, testClient\<lparr>lruCache := [''node-123'' \<mapsto> 7]\<rparr>,
        [Post ''data=q'', CacheDelete ''node-123'', ConsoleWarn (TransientError (Number (w / 1000))),
         Timer (Number w), Post ''data=q'', CacheSet ''node-123'' 7]))"
proof -
  have a: "replyOnce (mockResponse 503) 7 0 = Rejected (AxiosError (Some (mockResponse 503)))"
    by (simp add: replyOnce_def)
  have b: "status (mockResponse 503) \<in> {500, 502, 503, 504} \<or>
      status (mockResponse 503) = 429 \<and>
      (header (mockResponse 503) ''retry-after'' = None \<or>
       header (mockResponse 503) ''retry-after'' = Some '''')"
    by (simp add: mockResponse_def)
  have c: "int (Suc 0) < maxRetries testClient"
    by (simp add: testClient_def)
  have d: "(0::real) \<le> (\<lambda>_. 3 / 4) (Suc 0)" and e: "(\<lambda>_. 3 / 4 :: real) (Suc 0) < 1"
    by simp_all
  have next_attempt: "subscribeForRetry (maxRetries testClient) (retryDelay (\<lambda>_. 3 / 4) ''node(123); out;'' ''node-123'')
      (postAndTap (replyOnce (mockResponse 503) 7) ''data=q'' ''node-123'') (Suc 0)
      (testClient\<lparr>lruCache := lruCache_delete (lruCache testClient) ''node-123''\<rparr>) =
    (Next 7, testClient\<lparr>lruCache := [''node-123'' \<mapsto> 7]\<rparr>, [Post ''data=q'', CacheSet ''node-123'' 7])"
    by (simp add: loop_resolved replyOnce_def testClient_def lruCache_delete_def lruCache_set_def)
  from backoff_wait_range[where transport = "replyOnce (mockResponse 503) 7" and n = 0
      and r = "mockResponse 503" and s = testClient and random = "\<lambda>_. 3 / 4"
      and q = "''node(123); out;''" and cachedKey = "''node-123''" and body = "''data=q''",
      OF a b c d e]
  have "\<exists>w. w = 3 / 4 * (2 ^ Suc 0 * 1000) \<and> 0 \<le> w \<and> w < 2 ^ Suc 0 * 1000 \<and>
     subscribeForRetry (maxRetries testClient) (retryDelay (\<lambda>_. 3 / 4) ''node(123); out;'' ''node-123'')
         (postAndTap (replyOnce (mockResponse 503) 7) ''data=q'' ''node-123'') 0 testClient =
       prepend [Post ''data=q'', CacheDelete ''node-123'', ConsoleWarn (TransientError (Number (w / 1000))),
                Timer (Number w)]
         (Next 7, testClient\<lparr>lruCache := [''node-123'' \<mapsto> 7]\<rparr>,
          [Post ''data=q'', CacheSet ''node-123'' 7])"
    unfolding next_attempt .
  then show ?thesis
    using a c by (simp add: mockResponse_def testClient_def)
qed

text \<open>
  C4. For a 429 failure that is not the exhausting attempt, a well-formed \<open>retry-after\<close>
  header gives a wait of exactly that many seconds, and an absent or ill-formed header
  gives the backoff wait. The code does the first for the header \<open>1\<close> (1000 ms) and the
  second for an absent header (the backoff wait, 1500 ms when \<open>Math.random()\<close> gives 3/4 at
  the first failure). For a header that is present and ill-formed it does not: the header
  is tested for truthiness only, \<open>parseInt\<close> of an HTTP date is \<open>NaN\<close>, \<open>NaN * 1000\<close> is not \<open>null\<close>,
  and \<open>retryAfter\<close> warns of a retry in \<open>NaN\<close> seconds and schedules \<open>timer(NaN)\<close>; the backoff
  formula is not used.
\<close>

theorem rate_limit_http_date_schedules_NaN:
  "timers (snd (snd (query testClient
     (replyOnce ((mockResponse 429)\<lparr>headers := Some [(''retry-after'', ''1'')]\<rparr>) 7)
     (\<lambda>_. 3 / 4) ''node(123); out;'' ''node-123''))) = [Number 1000] \<and>
   timers (snd (snd (query testClient (replyOnce (mockResponse 429) 7)
     (\<lambda>_. 3 / 4) ''node(123); out;'' ''node-123''))) = [Number (3 / 4 * (2 ^ 1 * 1000))] \<and>
   header ((mockResponse 429)\<lparr>headers := Some [(''retry-after'', ''Wed, 21 Oct 2015 07:28:00 GMT'')]\<rparr>)
     ''retry-after'' = Some ''Wed, 21 Oct 2015 07:28:00 GMT'' \<and>
   parseInt ''Wed, 21 Oct 2015 07:28:00 GMT'' = None \<and>
   query testClient
     (replyOnce ((mockResponse 429)\<lparr>headers := Some [(''retry-after'', ''Wed, 21 Oct 2015 07:28:00 GMT'')]\<rparr>) 7)
     (\<lambda>_. 3 / 4) ''node(123); out;'' ''node-123'' =
     (Next 7, testClient\<lparr>lruCache := [''node-123'' \<mapsto> 7]\<rparr>,
      [Post (requestBody testClient ''node(123); out;''), CacheDelete ''node-123'',
       ConsoleWarn (RateLimitReached NaN), Timer NaN,
       Post (requestBody testClient ''node(123); out;''), CacheSet ''node-123'' 7]) \<and>
   NaN \<noteq> Number (3 / 4 * (2 ^ 1 * 1000))"
proof -
  let ?one = "(mockResponse 429)\<lparr>headers := Some [(''retry-after'', ''1'')]\<rparr>"
  let ?date = "(mockResponse 429)\<lparr>headers := Some [(''retry-after'', ''Wed, 21 Oct 2015 07:28:00 GMT'')]\<rparr>"
  have h: "header ?date ''retry-after'' = Some ''Wed, 21 Oct 2015 07:28:00 GMT''"
    by (simp add: header_def mockResponse_def)
  have p: "parseInt ''Wed, 21 Oct 2015 07:28:00 GMT'' = None"
    by (simp add: parseInt_def isWhiteSpace_def isDigit_def)
  from h p have date: "retryAfterHeader ?date = Some NaN"
    by (simp add: retryAfterHeader_def)
  have "parseInt ''1'' = Some 1"
    by (simp add: parseInt_def isWhiteSpace_def isDigit_def parseDigits_def digitValue_def)
  then have one: "retryAfterHeader ?one = Some (Number 1000)"
    by (simp add: retryAfterHeader_def header_def mockResponse_def)
  have absent: "status (mockResponse 429) \<in> {500, 502, 503, 504} \<or>
      status (mockResponse 429) = 429 \<and> retryAfterHeader (mockResponse 429) = None"
    by (simp add: retryAfterHeader_def header_def mockResponse_def)
  have s: "status ?date = 429" "status ?one = 429"
    by (simp_all add: mockResponse_def)
  have m: "int (Suc 0) < maxRetries testClient"
    by (simp add: testClient_def)
  have run_one: "timers (snd (snd (query testClient (replyOnce ?one 7) (\<lambda>_. 3 / 4)
      ''node(123); out;'' ''node-123''))) = [Number 1000]"
    by (simp add: query_def retry_def testClient_def replyOnce_def
        loop_timer[where e = "AxiosError (Some ?one)"] loop_resolved
        retryDelay_rate_limit[OF s(2) one])
  have run_absent: "timers (snd (snd (query testClient (replyOnce (mockResponse 429) 7) (\<lambda>_. 3 / 4)
      ''node(123); out;'' ''node-123''))) = [Number (3 / 4 * (2 ^ 1 * 1000))]"
    by (simp add: query_def retry_def testClient_def replyOnce_def
        loop_timer[where e = "AxiosError (Some (mockResponse 429))"] loop_resolved
        retryDelay_backoff[OF absent])
  have run_date: "query testClient (replyOnce ?date 7) (\<lambda>_. 3 / 4) ''node(123); out;'' ''node-123'' =
     (Next 7, testClient\<lparr>lruCache := [''node-123'' \<mapsto> 7]\<rparr>,
      [Post (requestBody testClient ''node(123); out;''), CacheDelete ''node-123'',
       ConsoleWarn (RateLimitReached NaN), Timer NaN,
       Post (requestBody testClient ''node(123); out;''), CacheSet ''node-123'' 7])"
    using m
    by (simp add: query_def retry_def replyOnce_def
        loop_timer[where e = "AxiosError (Some ?date)"] loop_resolved
        retryDelay_rate_limit[OF s(1) date])
       (simp add: testClient_def lruCache_delete_def lruCache_set_def)
  from run_one run_absent h p run_date show ?thesis
    by simp
qed




text \<open>
  C6. When \<open>query\<close> delivers a payload, that payload is a response of the transport, the last
  two effects of the run are the \<open>post\<close> that received it and the \<open>set\<close> under the request's
  key, and the store holds it under that key: the write precedes the delivery.
\<close>

theorem query_caches_before_delivery:
  assumes "query this transport random q cachedKey = (Next d, this', es)"
  shows "lruCache_get (lruCache this') cachedKey = Some d \<and>
         (\<exists>es0. es = es0 @ [Post (requestBody this q), CacheSet cachedKey d]) \<and>
         (\<exists>n. transport n = Resolved d)"
  using query_delivers[OF assms] by (simp add: lruCache_get_def)

theorem query_caches_before_delivery_witness:
  "query testClient (replyOnce (mockResponse 503) 7) (\<lambda>_. 1 / 2) ''node(123); out;'' ''node-123'' =
     (Next 7, testClient\<lparr>lruCache := [''node-123'' \<mapsto> 7]\<rparr>,
      [Post (requestBody testClient ''node(123); out;''), CacheDelete ''node-123'',
       ConsoleWarn (TransientError (Number 1)), Timer (Number 1000),
       Post (requestBody testClient ''node(123); out;''), CacheSet ''node-123'' 7]) \<and>
   lruCache_get (lruCache (testClient\<lparr>lruCache := [''node-123'' \<mapsto> 7]\<rparr>)) ''node-123'' = Some 7 \<and>
   replyOnce (mockResponse 503) 7 1 = Resolved 7"
proof -
  have run: "query testClient (replyOnce (mockResponse 503) 7) (\<lambda>_. 1 / 2) ''node(123); out;'' ''node-123'' =
     (Next 7, testClient\<lparr>lruCache := [''node-123'' \<mapsto> 7]\<rparr>,
      [Post (requestBody testClient ''node(123); out;''), CacheDelete ''node-123'',
       ConsoleWarn (TransientError (Number 1)), Timer (Number 1000),
       Post (requestBody testClient ''node(123); out;''), CacheSet ''node-123'' 7])"
    by (simp add: query_def retry_def testClient_def replyOnce_def mockResponse_def
        loop_timer[where e = "AxiosError (Some (mockResponse 503))"] loop_resolved retryDelay_backoff
        lruCache_delete_def lruCache_set_def)
  show ?thesis
    using query_caches_before_delivery[OF run] run by (simp add: replyOnce_def)
qed

text \<open>
  C7, as stated: an attempt that receives HTTP 400 ends the request with the bad-request
  error. The exhaustion guard \<open>attempt >= this.maxRetries\<close> is evaluated before the status:
  with \<open>maxRetries = 1\<close> the first attempt is already the exhausting one, and a 400 answer
  ends the request with the exhaustion error.
\<close>

theorem bad_request_on_exhausting_attempt_counterexample:
  "fst (query (testClient\<lparr>maxRetries := 1\<rparr>) (reply (mockResponse 400)) (\<lambda>_. 1 / 2)
          ''node(123); out;'' ''node-123'') =
     Error (OverpassErrorObject ''Overpass Error: node(123); out; Max retries exceeded. Request failed '') \<and>
   OverpassError ''Bad Request Error'' (Some (map replaceQuot (matchAll (data (mockResponse 400)))))
       (Some ''node(123); out;'') =
     OverpassErrorObject ''Overpass Error: node(123); out; Bad Request Error''"
  by (simp add: query_def retry_def testClient_def reply_def mockResponse_def
      loop_throw[where e = "AxiosError (Some (mockResponse 400))"] retryDelay_exhausted
      OverpassError_def matchAll.simps)

text \<open>
  C7, amended: an attempt that receives HTTP 400 is never followed by a retry, whatever
  budget remains: the run ends with an error after that \<open>post\<close>, with no timer and no further
  \<open>post\<close>. The caller receives the bad-request error, with the details read from the body,
  when the attempt is not the exhausting one, and the exhaustion error when it is (its
  number, counted from 1, equals \<open>maxRetries\<close>).
\<close>

theorem bad_request_never_retried:
  assumes "transport n = Rejected (AxiosError (Some r))" and "status r = 400"
  shows "\<exists>err s' es.
           subscribeForRetry (maxRetries s) (retryDelay random q cachedKey)
             (postAndTap transport body cachedKey) n s = (Error err, s', es) \<and>
           postCount es = 1 \<and> timers es = [] \<and>
           (int (Suc n) < maxRetries s \<longrightarrow>
              err = OverpassError ''Bad Request Error''
                      (Some (map replaceQuot (matchAll (data r)))) (Some q)) \<and>
           (int (Suc n) = maxRetries s \<longrightarrow>
              err = OverpassError (''Max retries exceeded. Request failed '' @
                      (case statusText r of None \<Rightarrow> '''' | Some t \<Rightarrow> t)) None (Some q))"
proof -
  consider (budget) "int (Suc n) < maxRetries s" | (last) "int (Suc n) = maxRetries s"
    | (past) "\<not> int n < maxRetries s"
    by linarith
  then show ?thesis
  proof cases
    case budget
    then have "int n < maxRetries s" by simp
    with retryDelay_400[OF assms(2) budget, of random q cachedKey] assms(1) budget
    show ?thesis
      by (simp add: loop_throw[where e = "AxiosError (Some r)"])
  next
    case last
    then have "int n < maxRetries s" and "maxRetries s \<le> int (Suc n)" by simp_all
    with retryDelay_exhausted[of s "Suc n" random q cachedKey "Some r"] assms(1) last
    show ?thesis
      by (simp add: loop_throw[where e = "AxiosError (Some r)"])
  next
    case past
    with assms(1) show ?thesis
      by (simp add: loop_past)
  qed
qed

theorem bad_request_never_retried_witness:
  "reply (mockResponse 400) 0 = Rejected (AxiosError (Some (mockResponse 400))) \<and>
   status (mockResponse 400) = 400 \<and>
   int (Suc 0) < maxRetries testClient \<and>
   (\<exists>s' es.
      subscribeForRetry 2 (retryDelay (\<lambda>_. 1 / 2) ''node(123); out;'' ''node-123'')
        (postAndTap (reply (mockResponse 400)) ''data=q'' ''node-123'') 0 testClient =
      (Error (OverpassErrorObject ''Overpass Error: node(123); out; Bad Request Error''), s', es) \<and>
      postCount es = 1 \<and> timers es = []) \<and>
   int (Suc 0) = maxRetries (testClient\<lparr>maxRetries := 1\<rparr>) \<and>
   (\<exists>s' es.
      subscribeForRetry 1 (retryDelay (\<lambda>_. 1 / 2) ''node(123); out;'' ''node-123'')
        (postAndTap (reply (mockResponse 400)) ''data=q'' ''node-123'') 0
        (testClient\<lparr>maxRetries := 1\<rparr>) =
      (Error (OverpassErrorObject
         ''Overpass Error: node(123); out; Max retries exceeded. Request failed ''), s', es) \<and>
      postCount es = 1 \<and> timers es = [])"
proof -
  have a: "reply (mockResponse 400) 0 = Rejected (AxiosError (Some (mockResponse 400)))"
    by (simp add: reply_def)
  have b: "status (mockResponse 400) = 400"
    by (simp add: mockResponse_def)
  have c: "int (Suc 0) < maxRetries testClient"
    and c': "int (Suc 0) = maxRetries (testClient\<lparr>maxRetries := 1\<rparr>)"
    by (simp_all add: testClient_def)
  have m: "maxRetries testClient = 2" and m': "maxRetries (testClient\<lparr>maxRetries := 1\<rparr>) = 1"
    by (simp_all add: testClient_def)
  have e: "OverpassError ''Bad Request Error''
        (Some (map replaceQuot (matchAll (data (mockResponse 400))))) (Some ''node(123); out;'') =
      OverpassErrorObject ''Overpass Error: node(123); out; Bad Request Error''"
    and e': "OverpassError (''Max retries exceeded. Request failed '' @
        (case statusText (mockResponse 400) of None \<Rightarrow> '''' | Some t \<Rightarrow> t)) None
        (Some ''node(123); out;'') =
      OverpassErrorObject ''Overpass Error: node(123); out; Max retries exceeded. Request failed ''"
    by (simp_all add: mockResponse_def OverpassError_def matchAll.simps)
  from bad_request_never_retried[where transport = "reply (mockResponse 400)" and n = 0
      and r = "mockResponse 400" and s = testClient and random = "\<lambda>_. 1 / 2"
      and q = "''node(123); out;''" and cachedKey = "''node-123''" and body = "''data=q''",
      OF a b] c
  have first: "\<exists>s' es.
      subscribeForRetry 2 (retryDelay (\<lambda>_. 1 / 2) ''node(123); out;'' ''node-123'')
        (postAndTap (reply (mockResponse 400)) ''data=q'' ''node-123'') 0 testClient =
      (Error (OverpassErrorObject ''Overpass Error: node(123); out; Bad Request Error''), s', es) \<and>
      postCount es = 1 \<and> timers es = []"
    unfolding m e by blast
  from bad_request_never_retried[where transport = "reply (mockResponse 400)" and n = 0
      and r = "mockResponse 400" and s = "testClient\<lparr>maxRetries := 1\<rparr>" and random = "\<lambda>_. 1 / 2"
      and q = "''node(123); out;''" and cachedKey = "''node-123''" and body = "''data=q''",
      OF a b] c'
  have second: "\<exists>s' es.
      subscribeForRetry 1 (retryDelay (\<lambda>_. 1 / 2) ''node(123); out;'' ''node-123'')
        (postAndTap (reply (mockResponse 400)) ''data=q'' ''node-123'') 0
        (testClient\<lparr>maxRetries := 1\<rparr>) =
      (Error (OverpassErrorObject
         ''Overpass Error: node(123); out; Max retries exceeded. Request failed ''), s', es) \<and>
      postCount es = 1 \<and> timers es = []"
    unfolding m' e' by auto
  from a b c c' first second show ?thesis by blast
qed

text \<open>
  C8. The query text that goes out is the caller's query after \<open>[out:<format>]\<close>, the
  \<open>[timeout:<seconds>]\<close> clause when the configured timeout is not zero and nothing in its
  place when it is zero, and a semicolon; every \<open>post\<close> of the request carries that text,
  percent-encoded, in the form field \<open>data\<close>.
\<close>

theorem fullQuery_wraps_query:
  "(timeout this = 0 \<longrightarrow> fullQuery this q = ''[out:'' @ formatText (format this) @ '']'' @ '';'' @ q) \<and>
   (timeout this \<noteq> 0 \<longrightarrow>
      fullQuery this q =
        ''[out:'' @ formatText (format this) @ '']'' @
        ''[timeout:'' @ toString (timeout this) @ '']'' @ '';'' @ q) \<and>
   (Post b \<in> set (snd (snd (query this transport random q cachedKey))) \<longrightarrow>
      b = ''data='' @ encodeURIComponent (fullQuery this q))"
proof -
  have "b = requestBody this q"
    if "Post b \<in> set (snd (snd (query this transport random q cachedKey)))"
  proof (cases "maxRetries this \<le> 0")
    case True
    with that show ?thesis
      by (cases "transport 0") (auto simp: query_def retry_def postAndTap_def)
  next
    case False
    with that show ?thesis
      by (auto simp: query_def retry_def dest: loop_posts_body)
  qed
  then show ?thesis
    by (auto simp: fullQuery_def requestBody_def)
qed

theorem fullQuery_wraps_query_witness:
  "timeout (testClient\<lparr>timeout := 0\<rparr>) = 0 \<and>
   fullQuery (testClient\<lparr>timeout := 0\<rparr>) ''node(123); out;'' = ''[out:json];node(123); out;'' \<and>
   timeout testClient \<noteq> 0 \<and>
   fullQuery testClient ''node(123); out;'' = ''[out:json][timeout:60];node(123); out;'' \<and>
   Post ''data=%5Bout%3Ajson%5D%5Btimeout%3A60%5D%3Bnode(123)%3B%20out%3B''
     \<in> set (snd (snd (query testClient (replyOnce (mockResponse 503) 7) (\<lambda>_. 1 / 2)
                         ''node(123); out;'' ''node-123'')))"
proof -
  have run: "query testClient (replyOnce (mockResponse 503) 7) (\<lambda>_. 1 / 2) ''node(123); out;'' ''node-123'' =
     (Next 7, testClient\<lparr>lruCache := [''node-123'' \<mapsto> 7]\<rparr>,
      [Post (requestBody testClient ''node(123); out;''), CacheDelete ''node-123'',
       ConsoleWarn (TransientError (Number 1)), Timer (Number 1000),
       Post (requestBody testClient ''node(123); out;''), CacheSet ''node-123'' 7])"
    by (simp add: query_def retry_def testClient_def replyOnce_def mockResponse_def
        loop_timer[where e = "AxiosError (Some (mockResponse 503))"] loop_resolved retryDelay_backoff
        lruCache_delete_def lruCache_set_def)
  have post: "Post (requestBody testClient ''node(123); out;'')
     \<in> set (snd (snd (query testClient (replyOnce (mockResponse 503) 7) (\<lambda>_. 1 / 2)
                         ''node(123); out;'' ''node-123'')))"
    by (simp add: run)
  have t0: "timeout (testClient\<lparr>timeout := 0\<rparr>) = 0" by simp
  have t60: "timeout testClient \<noteq> 0" by (simp add: testClient_def)
  from fullQuery_wraps_query[of "testClient\<lparr>timeout := 0\<rparr>" "''node(123); out;''"] t0
  have a: "fullQuery (testClient\<lparr>timeout := 0\<rparr>) ''node(123); out;'' = ''[out:json];node(123); out;''"
    by (simp add: testClient_def)
  from fullQuery_wraps_query[of testClient "''node(123); out;''" "requestBody testClient ''node(123); out;''"
      "replyOnce (mockResponse 503) 7" "\<lambda>_. 1 / 2" "''node-123''"] t60 post
  have b: "fullQuery testClient ''node(123); out;'' = ''[out:json][timeout:60];node(123); out;''"
    and c: "requestBody testClient ''node(123); out;'' =
      ''data='' @ encodeURIComponent (fullQuery testClient ''node(123); out;'')"
    by (simp_all add: testClient_def toString_60)
  from c b have "requestBody testClient ''node(123); out;'' =
      ''data=%5Bout%3Ajson%5D%5Btimeout%3A60%5D%3Bnode(123)%3B%20out%3B''"
    by (simp add: encoded_query)
  with post a b t0 t60 show ?thesis by simp
qed

text \<open>
  C9. In the 400 branch the details are the list of groups that \<open>matchAll\<close> finds in the body,
  each passed through the entity replacement. An occurrence is the opening marker
  \<open></strong>: \<close>, a group \<open>g\<close>, non-empty and free of \<open><\<close>, and the closing marker \<open> </p>\<close>. A text
  is among the groups exactly when it is the group of an occurrence in the body. The list
  is empty when the body has no occurrence; otherwise it is the group of the leftmost
  occurrence followed by the list for the text after that occurrence: every occurrence
  gives one entry, in the order of the body, repeated groups included. The replacement
  turns an occurrence of \<open>&quot;\<close> into one double-quote character and continues on both
  sides, and leaves a text without occurrence as it is. With no match the details are
  empty and the message of the error ends after \<open>Bad Request Error\<close>, with no details
  section.
\<close>

theorem bad_request_details:
  "(status r = 400 \<and> int attempt < maxRetries this \<longrightarrow>
      fst (retryDelay random q cachedKey (AxiosError (Some r)) attempt this) =
        ThrowError (OverpassError ''Bad Request Error''
                      (Some (map replaceQuot (matchAll (data r)))) (Some q))) \<and>
   (g \<in> set (matchAll body) \<longleftrightarrow>
      g \<noteq> [] \<and> CHR ''<'' \<notin> set g \<and>
      (\<exists>pre post. body = pre @ ''</strong>: '' @ g @ '' </p>'' @ post)) \<and>
   ((\<forall>g' a' b'. g' \<noteq> [] \<and> CHR ''<'' \<notin> set g' \<longrightarrow>
        body \<noteq> a' @ ''</strong>: '' @ g' @ '' </p>'' @ b') \<longrightarrow>
      matchAll body = []) \<and>
   (h \<noteq> [] \<and> CHR ''<'' \<notin> set h \<and>
    (\<forall>g' a' b'. g' \<noteq> [] \<and> CHR ''<'' \<notin> set g' \<longrightarrow>
        before \<noteq> a' @ ''</strong>: '' @ g' @ '' </p>'' @ b') \<longrightarrow>
      matchAll (before @ ''</strong>: '' @ h @ '' </p>'' @ rest) = h # matchAll rest) \<and>
   replaceQuot (a @ ''&quot;'' @ b) = replaceQuot a @ [CHR 0x22] @ replaceQuot b \<and>
   ((\<forall>a' b'. t \<noteq> a' @ ''&quot;'' @ b') \<longrightarrow> replaceQuot t = t) \<and>
   (matchAll body = [] \<longrightarrow>
      OverpassError ''Bad Request Error'' (Some (map replaceQuot (matchAll body))) (Some q) =
        OverpassErrorObject (''Overpass Error: '' @ (if q \<noteq> '''' then q @ '' '' else '''') @
                             ''Bad Request Error''))"
proof (intro conjI impI)
  assume "status r = 400 \<and> int attempt < maxRetries this"
  then show "fst (retryDelay random q cachedKey (AxiosError (Some r)) attempt this) =
        ThrowError (OverpassError ''Bad Request Error''
                      (Some (map replaceQuot (matchAll (data r)))) (Some q))"
    by (simp add: retryDelay_400)
next
  show "g \<in> set (matchAll body) \<longleftrightarrow>
      g \<noteq> [] \<and> CHR ''<'' \<notin> set g \<and>
      (\<exists>pre post. body = pre @ ''</strong>: '' @ g @ '' </p>'' @ post)"
    by (rule matchAll_iff)
next
  assume "\<forall>g' a' b'. g' \<noteq> [] \<and> CHR ''<'' \<notin> set g' \<longrightarrow>
        body \<noteq> a' @ ''</strong>: '' @ g' @ '' </p>'' @ b'"
  then show "matchAll body = []"
    by (intro matchAll_none) blast
next
  assume "h \<noteq> [] \<and> CHR ''<'' \<notin> set h \<and>
    (\<forall>g' a' b'. g' \<noteq> [] \<and> CHR ''<'' \<notin> set g' \<longrightarrow>
        before \<noteq> a' @ ''</strong>: '' @ g' @ '' </p>'' @ b')"
  then have "h \<noteq> []" "CHR ''<'' \<notin> set h"
    and "\<And>g' a' b'. g' \<noteq> [] \<Longrightarrow> CHR ''<'' \<notin> set g' \<Longrightarrow>
           before \<noteq> a' @ ''</strong>: '' @ g' @ '' </p>'' @ b'"
    by blast+
  then show "matchAll (before @ ''</strong>: '' @ h @ '' </p>'' @ rest) = h # matchAll rest"
    by (rule matchAll_first)
next
  show "replaceQuot (a @ ''&quot;'' @ b) = replaceQuot a @ [CHR 0x22] @ replaceQuot b"
    using replaceQuot_entity[of a b] by simp
next
  assume "\<forall>a' b'. t \<noteq> a' @ ''&quot;'' @ b'"
  then show "replaceQuot t = t"
    by (intro replaceQuot_plain) blast
next
  assume "matchAll body = []"
  then show "OverpassError ''Bad Request Error'' (Some (map replaceQuot (matchAll body))) (Some q) =
        OverpassErrorObject (''Overpass Error: '' @ (if q \<noteq> '''' then q @ '' '' else '''') @
                             ''Bad Request Error'')"
    by (simp add: OverpassError_def)
qed

theorem bad_request_details_witness:
  "status ((mockResponse 400)\<lparr>data := threeErrorsHtml\<rparr>) = 400 \<and> int 1 < maxRetries testClient \<and>
   fst (retryDelay (\<lambda>_. 1 / 2) ''node(123); out;'' ''node-123''
          (AxiosError (Some ((mockResponse 400)\<lparr>data := threeErrorsHtml\<rparr>))) 1 testClient) =
     ThrowError (OverpassErrorObject
       (''Overpass Error: node(123); out; Bad Request Error'' @ [CHR 0x0A] @
        ''Details: line 1: parse error; line 1: parse error; Unknown type '' @
        [CHR 0x22] @ ''nod'' @ [CHR 0x22])) \<and>
   matchAll threeErrorsHtml =
     [''line 1: parse error'', ''line 1: parse error'', ''Unknown type &quot;nod&quot;''] \<and>
   ''Unknown type &quot;nod&quot;'' \<in> set (matchAll threeErrorsHtml) \<and>
   threeErrorsHtml =
     ''<p><strong>Error'' @ ''</strong>: '' @ ''line 1: parse error'' @ '' </p>'' @
     drop 51 threeErrorsHtml \<and>
   matchAll threeErrorsHtml = ''line 1: parse error'' # matchAll (drop 51 threeErrorsHtml) \<and>
   matchAll ''[object Object]'' = [] \<and>
   replaceQuot (''Unknown type '' @ ''&quot;'' @ ''nod&quot;'') =
     ''Unknown type '' @ [CHR 0x22] @ ''nod'' @ [CHR 0x22] \<and>
   (\<forall>a' b'. ''Unknown type '' \<noteq> a' @ ''&quot;'' @ b') \<and>
   replaceQuot ''Unknown type '' = ''Unknown type '' \<and>
   OverpassError ''Bad Request Error''
       (Some (map replaceQuot (matchAll ''[object Object]''))) (Some ''node(123); out;'') =
     OverpassErrorObject ''Overpass Error: node(123); out; Bad Request Error''"
proof -
  let ?r = "(mockResponse 400)\<lparr>data := threeErrorsHtml\<rparr>"
  let ?rest = "drop 51 threeErrorsHtml"
  have st: "status ?r = 400 \<and> int 1 < maxRetries testClient"
    by (simp add: mockResponse_def testClient_def)
  have shape: "threeErrorsHtml =
      ''<p><strong>Error'' @ ''</strong>: '' @ ''line 1: parse error'' @ '' </p>'' @ ?rest"
    by (simp add: threeErrorsHtml_def)
  have no_slash: "\<forall>g' a' b'. g' \<noteq> [] \<and> CHR ''<'' \<notin> set g' \<longrightarrow>
       s \<noteq> a' @ ''</strong>: '' @ g' @ '' </p>'' @ b'" if "CHR ''/'' \<notin> set s" for s
  proof (intro allI impI notI)
    fix g' a' b' :: string
    assume "s = a' @ ''</strong>: '' @ g' @ '' </p>'' @ b'"
    then have "set s = set (a' @ ''</strong>: '' @ g' @ '' </p>'' @ b')"
      by (rule arg_cong)
    then have "CHR ''/'' \<in> set s"
      by simp
    with that show False by simp
  qed
  have free: "\<forall>g' a' b'. g' \<noteq> [] \<and> CHR ''<'' \<notin> set g' \<longrightarrow>
       ''<p><strong>Error'' \<noteq> a' @ ''</strong>: '' @ g' @ '' </p>'' @ b'"
    by (rule no_slash) simp
  have object: "\<forall>g' a' b'. g' \<noteq> [] \<and> CHR ''<'' \<notin> set g' \<longrightarrow>
       ''[object Object]'' \<noteq> a' @ ''</strong>: '' @ g' @ '' </p>'' @ b'"
    by (rule no_slash) simp
  have plain: "\<forall>a' b'. ''Unknown type '' \<noteq> a' @ ''&quot;'' @ b'"
  proof (intro allI notI)
    fix a' b' :: string
    assume "''Unknown type '' = a' @ ''&quot;'' @ b'"
    then have "set ''Unknown type '' = set (a' @ ''&quot;'' @ b')"
      by (rule arg_cong)
    then have "CHR ''&'' \<in> set ''Unknown type ''"
      by simp
    then show False by simp
  qed
  have tail: "matchAll ?rest = [''line 1: parse error'', ''Unknown type &quot;nod&quot;'']"
    by (simp add: threeErrorsHtml_def matchAll.simps matchHere_def)
  note at_body = bad_request_details[where r = ?r and attempt = 1 and this = testClient
      and random = "\<lambda>_. 1 / 2" and q = "''node(123); out;''" and cachedKey = "''node-123''"
      and g = "''Unknown type &quot;nod&quot;''" and body = threeErrorsHtml
      and h = "''line 1: parse error''" and before = "''<p><strong>Error''" and rest = ?rest
      and a = "''Unknown type ''" and b = "''nod&quot;''" and t = "''Unknown type ''"]
  note at_object = bad_request_details[where r = ?r and attempt = 1 and this = testClient
      and random = "\<lambda>_. 1 / 2" and q = "''node(123); out;''" and cachedKey = "''node-123''"
      and g = "''Unknown type &quot;nod&quot;''" and body = "''[object Object]''"
      and h = "''line 1: parse error''" and before = "''<p><strong>Error''" and rest = ?rest
      and a = "''Unknown type ''" and b = "''nod&quot;''" and t = "''Unknown type ''"]
  from at_body free have "matchAll (''<p><strong>Error'' @ ''</strong>: '' @ ''line 1: parse error'' @
      '' </p>'' @ ?rest) = ''line 1: parse error'' # matchAll ?rest"
    by simp
  then have first: "matchAll threeErrorsHtml = ''line 1: parse error'' # matchAll ?rest"
    using shape by simp
  with tail have groups: "matchAll threeErrorsHtml =
      [''line 1: parse error'', ''line 1: parse error'', ''Unknown type &quot;nod&quot;'']"
    by simp
  from at_body st have callback: "fst (retryDelay (\<lambda>_. 1 / 2) ''node(123); out;'' ''node-123''
          (AxiosError (Some ?r)) 1 testClient) =
        ThrowError (OverpassError ''Bad Request Error''
                      (Some (map replaceQuot (matchAll (data ?r)))) (Some ''node(123); out;''))"
    by blast
  have details: "OverpassError ''Bad Request Error''
        (Some (map replaceQuot (matchAll (data ?r)))) (Some ''node(123); out;'') =
      OverpassErrorObject
       (''Overpass Error: node(123); out; Bad Request Error'' @ [CHR 0x0A] @
        ''Details: line 1: parse error; line 1: parse error; Unknown type '' @
        [CHR 0x22] @ ''nod'' @ [CHR 0x22])"
    by (simp add: mockResponse_def groups OverpassError_def)
  have member: "''Unknown type &quot;nod&quot;'' \<in> set (matchAll threeErrorsHtml)"
    by (simp add: groups)
  from at_object object have none: "matchAll ''[object Object]'' = []"
    by blast
  from at_body have entity: "replaceQuot (''Unknown type '' @ ''&quot;'' @ ''nod&quot;'') =
      replaceQuot ''Unknown type '' @ [CHR 0x22] @ replaceQuot ''nod&quot;''"
    by blast
  from at_body plain have same: "replaceQuot ''Unknown type '' = ''Unknown type ''"
    by blast
  from at_object none have "OverpassError ''Bad Request Error''
       (Some (map replaceQuot (matchAll ''[object Object]''))) (Some ''node(123); out;'') =
     OverpassErrorObject (''Overpass Error: '' @
       (if ''node(123); out;'' \<noteq> '''' then ''node(123); out;'' @ '' '' else '''') @
       ''Bad Request Error'')"
    by blast
  then have message: "OverpassError ''Bad Request Error''
       (Some (map replaceQuot (matchAll ''[object Object]''))) (Some ''node(123); out;'') =
     OverpassErrorObject ''Overpass Error: node(123); out; Bad Request Error''"
    by simp
  from entity same have decoded: "replaceQuot (''Unknown type '' @ ''&quot;'' @ ''nod&quot;'') =
     ''Unknown type '' @ [CHR 0x22] @ ''nod'' @ [CHR 0x22]"
    by simp
  from st callback details groups member shape first none decoded plain same message
  show ?thesis
    by (simp only: simp_thms)
qed




end
